theory Spec2Isabelle
  imports Complex_Main
begin

section \<open>Python values and exceptions\<close>

text \<open>
  The scripts are dynamically typed: the joint-action buffer of the session holds
  \<open>[None, None]\<close>, then action indices, and in replay mode whatever \<open>str_to_actions\<close>
  returns. Values are therefore modelled by one datatype. Floats are kept as an opaque
  pair (mantissa, exponent); dictionaries are the string-keyed ones \<open>json.loads\<close> builds.
\<close>

datatype pyval =
    PNone
  | PBool bool
  | PInt int
  | PFloat int int
  | PStr string
  | PList "pyval list"
  | PTuple "pyval list"
  | PDict "(string \<times> pyval) list"

datatype py_error =
    ValueError
  | KeyError
  | IndexError
  | TypeError
  | ZeroDivisionError
  | AssertionError
  | NameError
  | AttributeError
  | EOFError
  | FileNotFoundError
  | OtherError

text \<open>\<open>v[i]\<close> for a non-negative literal index \<open>i\<close>.\<close>

fun py_getitem :: "pyval \<Rightarrow> nat \<Rightarrow> py_error + pyval" where
  "py_getitem (PList xs) i = (if i < length xs then Inr (xs ! i) else Inl IndexError)"
| "py_getitem (PTuple xs) i = (if i < length xs then Inr (xs ! i) else Inl IndexError)"
| "py_getitem (PStr s) i = (if i < length s then Inr (PStr [s ! i]) else Inl IndexError)"
| "py_getitem (PDict kvs) i = Inl KeyError"
| "py_getitem v i = Inl TypeError"

text \<open>\<open>v[i] = x\<close>: only a list supports item assignment (a string-keyed dictionary would
  gain the integer key; the scripts never build one, and the case is reported as an error
  of its own kind).\<close>

fun py_setitem :: "pyval \<Rightarrow> nat \<Rightarrow> pyval \<Rightarrow> py_error + pyval" where
  "py_setitem (PList xs) i x = (if i < length xs then Inr (PList (xs[i := x])) else Inl IndexError)"
| "py_setitem (PDict kvs) i x = Inl OtherError"
| "py_setitem v i x = Inl TypeError"

text \<open>Iterating a value (\<open>for a in v\<close>).\<close>

fun py_iter :: "pyval \<Rightarrow> py_error + pyval list" where
  "py_iter (PList xs) = Inr xs"
| "py_iter (PTuple xs) = Inr xs"
| "py_iter (PStr s) = Inr (map (\<lambda>c. PStr [c]) s)"
| "py_iter (PDict kvs) = Inr (map (\<lambda>kv. PStr (fst kv)) kvs)"
| "py_iter v = Inl TypeError"

section \<open>The session driver (\<open>scripts/run_overcooked_game.py\<close>, class \<open>App\<close>)\<close>

subsection \<open>The environment collaborator\<close>

text \<open>
  \<open>OvercookedGymEnv\<close> is not part of the repository: it is a parameter. \<open>env_step\<close>
  returns the new environment, \<open>info['sparse_r_by_agent']\<close> and \<open>done\<close>
  (the observation and the shaped reward are not used by the driver).
\<close>

record 'e env_ops =
  env_step :: "'e \<Rightarrow> pyval \<Rightarrow> 'e \<times> int list \<times> bool"
  env_reset :: "'e \<Rightarrow> 'e"
  env_is_done :: "'e \<Rightarrow> bool"
  terrain_mtx :: "'e \<Rightarrow> string list"

subsection \<open>Transitions and the session state\<close>

record 'e transition =
  t_state :: 'e
  t_joint_action :: pyval
  t_reward :: int
  t_time_left :: rat
  t_score :: int
  t_time_elapsed :: rat
  t_cur_gameloop :: int
  t_layout :: "string list"
  t_layout_name :: string
  t_trial_id :: int

text \<open>
  The fields of \<open>App\<close> that the three execution modes read or write. \<open>stdout\<close> collects
  the pairs (ticks, score) of the lines \<open>Trial finished in ... steps with total
  reward ...\<close>; \<open>resets\<close> counts the calls of \<open>env.reset()\<close>.
\<close>

record 'e app =
  running :: bool
  env :: 'e
  layout_name :: string
  fps :: int
  score :: int
  curr_tick :: int
  joint_action :: pyval
  collect_trajectory :: bool
  trajectory :: "'e transition list"
  trial_id :: int
  stdout :: "(int \<times> int) list"
  resets :: nat

text \<open>
  \<open>step_env\<close> (\<open>use_subtask_env\<close> is the constant \<open>False\<close>). \<open>(1200 - curr_tick) / fps\<close>
  and \<open>curr_tick / fps\<close> are Python true divisions: they raise ZeroDivisionError when
  \<open>fps\<close> is 0, and are modelled by exact rationals elsewhere (the quotient of two such
  integers is zero, positive or negative as a double exactly when it is as a rational).
\<close>

definition step_env :: "'e env_ops \<Rightarrow> 'e app \<Rightarrow> pyval \<Rightarrow> py_error + (bool \<times> 'e app)" where
  "step_env E s ja =
     (let prev_state = env s;
          (new_state, sparse_r_by_agent, done) = env_step E (env s) ja;
          curr_reward = sum_list sparse_r_by_agent;
          s1 = s\<lparr>env := new_state, score := score s + curr_reward\<rparr>
      in if fps s1 = 0 then Inl ZeroDivisionError
         else
           let transition =
             \<lparr>t_state = prev_state,
              t_joint_action = ja,
              t_reward = curr_reward,
              t_time_left = max (of_int (1200 - curr_tick s1) / of_int (fps s1)) 0,
              t_score = score s1,
              t_time_elapsed = of_int (curr_tick s1) / of_int (fps s1),
              t_cur_gameloop = curr_tick s1,
              t_layout = terrain_mtx E new_state,
              t_layout_name = layout_name s1,
              t_trial_id = 100\<rparr>
           in Inr (done,
                if collect_trajectory s1
                then s1\<lparr>trajectory := trajectory s1 @ [transition]\<rparr>
                else s1))"

definition on_loop :: "'e env_ops \<Rightarrow> 'e app \<Rightarrow> py_error + 'e app" where
  "on_loop E s =
     (case py_iter (joint_action s) of
        Inl e \<Rightarrow> Inl e
      | Inr actions \<Rightarrow>
          if \<not> list_all (\<lambda>a. a \<noteq> PNone) actions then Inl AssertionError
          else
            (case step_env E s (joint_action s) of
               Inl e \<Rightarrow> Inl e
             | Inr (done, s1) \<Rightarrow>
                 let s2 = s1\<lparr>joint_action := PList [PNone, PNone],
                             curr_tick := curr_tick s1 + 1\<rparr>
                 in Inr (if done then s2\<lparr>running := False\<rparr> else s2)))"

subsection \<open>Human input\<close>

datatype key = K_UP | K_RIGHT | K_DOWN | K_LEFT | K_SPACE | K_s | K_other

datatype action = NORTH | EAST | SOUTH | WEST | INTERACT | STAY

datatype event = KEYDOWN key | QUIT | OTHER_EVENT

fun key_action :: "key \<Rightarrow> action" where
  "key_action K_UP = NORTH"
| "key_action K_RIGHT = EAST"
| "key_action K_DOWN = SOUTH"
| "key_action K_LEFT = WEST"
| "key_action K_SPACE = INTERACT"
| "key_action K_s = STAY"
| "key_action K_other = STAY"

text \<open>\<open>on_event\<close>; \<open>a2i\<close> is the library table \<open>Action.ACTION_TO_INDEX\<close>.\<close>

fun on_event :: "(action \<Rightarrow> int) \<Rightarrow> nat \<Rightarrow> event \<Rightarrow> 'e app \<Rightarrow> py_error + 'e app" where
  "on_event a2i pidx (KEYDOWN k) s =
     (case py_setitem (joint_action s) pidx (PInt (a2i (key_action k))) of
        Inl e \<Rightarrow> Inl e
      | Inr ja \<Rightarrow> Inr (s\<lparr>joint_action := ja\<rparr>))"
| "on_event a2i pidx QUIT s = Inr (s\<lparr>running := False\<rparr>)"
| "on_event a2i pidx OTHER_EVENT s = Inr s"

text \<open>\<open>for event in pygame.event.get(): self.on_event(event, i)\<close> on one batch of events.\<close>

fun on_events :: "(action \<Rightarrow> int) \<Rightarrow> nat \<Rightarrow> event list \<Rightarrow> 'e app \<Rightarrow> py_error + 'e app" where
  "on_events a2i pidx [] s = Inr s"
| "on_events a2i pidx (ev # evs) s =
     (case on_event a2i pidx ev s of
        Inl e \<Rightarrow> Inl e
      | Inr s' \<Rightarrow> on_events a2i pidx evs s')"

text \<open>
  \<open>while self.joint_action[i] is None: ...\<close>: the input is the list of the batches that
  the successive calls of \<open>pygame.event.get()\<close> return. When the batches run out while
  the seat has no action the loop waits for ever: the result is \<open>None\<close>.
\<close>

fun wait_for_action ::
  "(action \<Rightarrow> int) \<Rightarrow> nat \<Rightarrow> event list list \<Rightarrow> 'e app \<Rightarrow>
     (py_error + 'e app \<times> event list list) option" where
  "wait_for_action a2i i [] s =
     (case py_getitem (joint_action s) i of
        Inl e \<Rightarrow> Some (Inl e)
      | Inr v \<Rightarrow> if v = PNone then None else Some (Inr (s, [])))"
| "wait_for_action a2i i (b # bs) s =
     (case py_getitem (joint_action s) i of
        Inl e \<Rightarrow> Some (Inl e)
      | Inr v \<Rightarrow>
          if v = PNone
          then (case on_events a2i i b s of
                  Inl e \<Rightarrow> Some (Inl e)
                | Inr s' \<Rightarrow> wait_for_action a2i i bs s')
          else Some (Inr (s, b # bs)))"

lemma wait_for_action_length:
  "wait_for_action a2i i bs s = Some (Inr (s', bs')) \<Longrightarrow> length bs' \<le> length bs"
proof (induction bs arbitrary: s)
  case Nil
  then show ?case by (auto split: sum.splits if_splits)
next
  case (Cons b bs)
  then show ?case by (fastforce split: sum.splits if_splits)
qed

lemma wait_for_action_shorter:
  "wait_for_action a2i i bs s = Some (Inr (s', bs')) \<Longrightarrow>
   py_getitem (joint_action s) i = Inr PNone \<Longrightarrow> length bs' < length bs"
proof (cases bs)
  case Nil
  assume "wait_for_action a2i i bs s = Some (Inr (s', bs'))"
    and "py_getitem (joint_action s) i = Inr PNone"
  with Nil show ?thesis by simp
next
  case (Cons b bs0)
  assume a: "wait_for_action a2i i bs s = Some (Inr (s', bs'))"
    and n: "py_getitem (joint_action s) i = Inr PNone"
  from a n Cons obtain s1 where "wait_for_action a2i i bs0 s1 = Some (Inr (s', bs'))"
    by (auto split: sum.splits)
  then have "length bs' \<le> length bs0" by (rule wait_for_action_length)
  with Cons show ?thesis by simp
qed

subsection \<open>COLLECT mode\<close>

text \<open>
  The loop of \<open>collection_execution\<close>. \<open>on_render\<close> draws and changes nothing of the
  session. The result is \<open>None\<close> when the loop never ends because the input runs out,
  \<open>Some (Inl e)\<close> when an exception leaves it, \<open>Some (Inr s)\<close> when it ends.
\<close>

function collection_loop ::
  "'e env_ops \<Rightarrow> (action \<Rightarrow> int) \<Rightarrow> event list list \<Rightarrow> 'e app \<Rightarrow> (py_error + 'e app) option" where
  "collection_loop E a2i bs s =
     (if \<not> running s then Some (Inr s)
      else
        (case wait_for_action a2i 0 bs (s\<lparr>joint_action := PList [PNone, PNone]\<rparr>) of
           None \<Rightarrow> None
         | Some (Inl e) \<Rightarrow> Some (Inl e)
         | Some (Inr (s1, bs1)) \<Rightarrow>
             (case wait_for_action a2i 1 bs1 s1 of
                None \<Rightarrow> None
              | Some (Inl e) \<Rightarrow> Some (Inl e)
              | Some (Inr (s2, bs2)) \<Rightarrow>
                  (case on_loop E s2 of
                     Inl e \<Rightarrow> Some (Inl e)
                   | Inr s3 \<Rightarrow> collection_loop E a2i bs2 s3))))"
  by pat_completeness auto
termination
proof (relation "measure (\<lambda>(E, a2i, bs, s). length bs)", goal_cases)
  case 1
  show ?case by simp
next
  case (2 E a2i bs s x2 x2a x1 bs1 x2c x2d s2 bs2 s3)
  from 2 have a: "wait_for_action a2i 0 bs (s\<lparr>joint_action := PList [PNone, PNone]\<rparr>)
      = Some (Inr (x1, bs1))" by simp
  from 2 have b: "wait_for_action a2i 1 bs1 x1 = Some (Inr (s2, bs2))" by simp
  have "length bs1 < length bs"
    by (rule wait_for_action_shorter [OF a]) simp
  moreover have "length bs2 \<le> length bs1"
    by (rule wait_for_action_length [OF b])
  ultimately show ?case by simp
qed

declare collection_loop.simps [simp del]

subsection \<open>Trial files\<close>

definition is_digit :: "char \<Rightarrow> bool" where
  "is_digit c = (48 \<le> (of_char c :: nat) \<and> (of_char c :: nat) \<le> 57)"

definition newline :: char where
  "newline = CHR 0x0A"

text \<open>
  \<open>re.compile('^.*\.[0-9]+\.pickle$').match(file)\<close>: the name is \<open>X.D.pickle\<close>,
  optionally followed by one final newline (which \<open>$\<close> tolerates), where \<open>D\<close> is a
  non-empty run of ASCII digits and \<open>X\<close> holds no newline (\<open>.\<close> does not match one).
  The name is read from its end: the digits before \<open>.pickle\<close> are followed by a dot, so
  they are the longest run of digits there.
\<close>

definition trial_file_match :: "string \<Rightarrow> bool" where
  "trial_file_match file =
     (let r = rev file;
          r1 = (case r of [] \<Rightarrow> [] | c # cs \<Rightarrow> if c = newline then cs else r);
          ext = rev ''.pickle''
      in take (length ext) r1 = ext \<and>
         (let r2 = drop (length ext) r1;
              ds = takeWhile is_digit r2;
              r3 = dropWhile is_digit r2
          in ds \<noteq> [] \<and>
             (case r3 of [] \<Rightarrow> False | c # x \<Rightarrow> c = CHR ''.'' \<and> newline \<notin> set x)))"

text \<open>\<open>s.split(sep)\<close> for a separator of one character.\<close>

fun split_on :: "char \<Rightarrow> string \<Rightarrow> string list" where
  "split_on sep [] = [[]]"
| "split_on sep (c # cs) =
     (if c = sep then [] # split_on sep cs
      else (case split_on sep cs of
              [] \<Rightarrow> [[c]]
            | p # ps \<Rightarrow> (c # p) # ps))"

text \<open>
  \<open>int(s)\<close> on a string of ASCII digits. (Python also accepts a sign, blanks around the
  number and underscores; the component of a name that \<open>trial_file_match\<close> accepts has
  none of them. Every other string is rejected here, as most are by Python.)
\<close>

definition py_int :: "string \<Rightarrow> py_error + int" where
  "py_int s =
     (if s \<noteq> [] \<and> list_all is_digit s
      then Inr (foldl (\<lambda>n c. 10 * n + (int (of_char c) - 48)) 0 s)
      else Inl ValueError)"

text \<open>\<open>int(file.split('.')[-2])\<close>.\<close>

definition file_trial_id :: "string \<Rightarrow> py_error + int" where
  "file_trial_id file =
     (let parts = split_on (CHR ''.'') file
      in if length parts < 2 then Inl IndexError
         else py_int (parts ! (length parts - 2)))"

text \<open>
  The loop over \<open>listdir(self.data_path)\<close> in \<open>__init__\<close>; an entry of the directory
  is its name and whether \<open>isfile\<close> holds for it.
\<close>

fun collect_trial_ids :: "(string \<times> bool) list \<Rightarrow> py_error + int list" where
  "collect_trial_ids [] = Inr []"
| "collect_trial_ids ((file, isfile) # rest) =
     (if isfile \<and> trial_file_match file
      then (case file_trial_id file of
              Inl e \<Rightarrow> Inl e
            | Inr n \<Rightarrow>
                (case collect_trial_ids rest of
                   Inl e \<Rightarrow> Inl e
                 | Inr ns \<Rightarrow> Inr (n # ns)))
      else collect_trial_ids rest)"

text \<open>\<open>str(n)\<close> for an integer.\<close>

fun str_nat :: "nat \<Rightarrow> string" where
  "str_nat n =
     (if n < 10 then [''0123456789'' ! n]
      else str_nat (n div 10) @ [''0123456789'' ! (n mod 10)])"

declare str_nat.simps [simp del]

definition str_int :: "int \<Rightarrow> string" where
  "str_int i = (if i < 0 then CHR ''-'' # str_nat (nat (- i)) else str_nat (nat i))"

subsection \<open>Construction of the session\<close>

datatype mode = REPLAY | PLAY | COLLECT_DATA

text \<open>
  \<open>App.__init__\<close>, for the fields of the model. \<open>traj_file\<close> and \<open>agent\<close> are the
  optional arguments (of the agent only its presence matters here); \<open>e0\<close> is the
  environment that \<open>OvercookedGymEnv(...)\<close> builds and \<open>listing\<close> the content of the
  data directory. With a trajectory file the constructor reads the names \<open>data_path\<close>
  and \<open>layout_name\<close>, which are neither local nor global in the script: NameError.
  \<open>30 // slowmo_rate\<close> raises ZeroDivisionError for 0 and is the floor division.
\<close>

definition app_mode :: "string option \<Rightarrow> bool \<Rightarrow> mode" where
  "app_mode traj_file has_agent =
     (if traj_file \<noteq> None then REPLAY else if has_agent then PLAY else COLLECT_DATA)"

definition app_init ::
  "'e \<Rightarrow> string option \<Rightarrow> int \<Rightarrow> (string \<times> bool) list \<Rightarrow> py_error + 'e app" where
  "app_init e0 traj_file slowmo_rate listing =
     (if slowmo_rate = 0 then Inl ZeroDivisionError
      else
        let s = \<lparr>running = True, env = e0, layout_name = ''forced_coordination'',
                 fps = 30 div slowmo_rate, score = 0, curr_tick = 0,
                 joint_action = PList [PNone, PNone],
                 collect_trajectory = (traj_file = None \<or> traj_file = Some []),
                 trajectory = [], trial_id = 0, stdout = [], resets = 0\<rparr>
        in if collect_trajectory s
           then (case collect_trial_ids listing of
                   Inl e \<Rightarrow> Inl e
                 | Inr trial_ids \<Rightarrow>
                     Inr (s\<lparr>trial_id :=
                       (if length trial_ids > 0 then Max (set trial_ids) + 1 else 1)\<rparr>))
           else Inl NameError)"

text \<open>\<open>save_trajectory\<close>: the name of the pickle file written in the data directory, and
  its content.\<close>

definition save_trajectory :: "'e app \<Rightarrow> string \<times> 'e transition list" where
  "save_trajectory s =
     (layout_name s @ ''.'' @ str_int (trial_id s) @ ''.pickle'', trajectory s)"

text \<open>
  \<open>collection_execution\<close>: \<open>on_init\<close> sets the running flag (and returns \<open>None\<close>, so the
  test \<open>== False\<close> fails); after the loop the trajectory is saved and the summary line is
  printed. The result holds the final session and the file written.
\<close>

definition collection_execution ::
  "'e env_ops \<Rightarrow> (action \<Rightarrow> int) \<Rightarrow> event list list \<Rightarrow> 'e app \<Rightarrow>
     (py_error + 'e app \<times> (string \<times> 'e transition list)) option" where
  "collection_execution E a2i bs s =
     (case collection_loop E a2i bs (s\<lparr>running := True\<rparr>) of
        None \<Rightarrow> None
      | Some (Inl e) \<Rightarrow> Some (Inl e)
      | Some (Inr s') \<Rightarrow>
          Some (Inr (s'\<lparr>stdout := stdout s' @ [(curr_tick s', score s')]\<rparr>,
                     save_trajectory s')))"

definition same_session :: "'e app \<Rightarrow> 'e app \<Rightarrow> bool" where
  "same_session s s' =
     (trial_id s' = trial_id s \<and> layout_name s' = layout_name s \<and> fps s' = fps s \<and>
      collect_trajectory s' = collect_trajectory s)"


definition overcooked_action_to_index :: "action \<Rightarrow> int" where
  "overcooked_action_to_index a =
     (case a of NORTH \<Rightarrow> 0 | SOUTH \<Rightarrow> 1 | EAST \<Rightarrow> 2 | WEST \<Rightarrow> 3 | STAY \<Rightarrow> 4 | INTERACT \<Rightarrow> 5)"

definition demo_env :: "nat env_ops" where
  "demo_env =
     \<lparr>env_step = (\<lambda>n ja. (Suc n,
                    (if py_getitem ja 0 = Inr (PInt 5) then [20, 0] else [0, 0]),
                    2 \<le> Suc n)),
      env_reset = (\<lambda>n. 0),
      env_is_done = (\<lambda>n. 2 \<le> n),
      terrain_mtx = (\<lambda>n. [''XPX'', ''O S''])\<rparr>"

definition demo_script :: "event list list" where
  "demo_script = [[KEYDOWN K_s], [KEYDOWN K_s], [KEYDOWN K_SPACE], [OTHER_EVENT], [KEYDOWN K_s]]"

definition layout_trial_file :: "string \<Rightarrow> string \<Rightarrow> bool" where
  "layout_trial_file layout file =
     (let rest = drop (length layout + 1) file
      in take (length layout + 1) file = layout @ ''.'' \<and>
         takeWhile is_digit rest \<noteq> [] \<and>
         dropWhile is_digit rest = ''.pickle'')"

definition claimed_trial_id :: "string \<Rightarrow> (string \<times> bool) list \<Rightarrow> int" where
  "claimed_trial_id layout listing =
     (let ids = concat (map (\<lambda>(file, isfile).
                  if isfile \<and> layout_trial_file layout file
                  then (case file_trial_id file of Inl e \<Rightarrow> [] | Inr n \<Rightarrow> [n])
                  else []) listing)
      in if ids = [] then 1 else Max (set ids) + 1)"

definition claimed_file_name :: "string \<Rightarrow> (string \<times> bool) list \<Rightarrow> string" where
  "claimed_file_name layout listing =
     layout @ ''.'' @ str_int (claimed_trial_id layout listing) @ ''.pickle''"

subsection \<open>An example session\<close>

text \<open>
  A data directory and the session state that \<open>App.__init__\<close> builds in it with
  \<open>slowmo_rate = 8\<close>; the transitions that the example environment and script produce.
\<close>

definition demo_listing :: "(string \<times> bool) list" where
  "demo_listing =
     [(''forced_coordination.2.pickle'', True), (''asymmetric_advantages.7.pickle'', True),
      (''all_trials.pickle'', True), (''old.9.pickle'', False)]"

definition demo_s0 :: "nat app" where
  "demo_s0 =
     \<lparr>running = True, env = 0, layout_name = ''forced_coordination'', fps = 3, score = 0,
      curr_tick = 0, joint_action = PList [PNone, PNone], collect_trajectory = True,
      trajectory = [], trial_id = 8, stdout = [], resets = 0\<rparr>"

definition demo_trajectory :: "nat transition list" where
  "demo_trajectory =
     [\<lparr>t_state = 0, t_joint_action = PList [PInt 4, PInt 4], t_reward = 0,
       t_time_left = 400, t_score = 0, t_time_elapsed = 0, t_cur_gameloop = 0,
       t_layout = [''XPX'', ''O S''], t_layout_name = ''forced_coordination'',
       t_trial_id = 100\<rparr>,
      \<lparr>t_state = 1, t_joint_action = PList [PInt 5, PInt 4], t_reward = 20,
       t_time_left = 1199 / 3, t_score = 20, t_time_elapsed = 1 / 3, t_cur_gameloop = 1,
       t_layout = [''XPX'', ''O S''], t_layout_name = ''forced_coordination'',
       t_trial_id = 100\<rparr>]"

definition demo_s1 :: "nat app" where
  "demo_s1 =
     \<lparr>running = False, env = 2, layout_name = ''forced_coordination'', fps = 3, score = 20,
      curr_tick = 2, joint_action = PList [PNone, PNone], collect_trajectory = True,
      trajectory = demo_trajectory, trial_id = 8, stdout = [(2, 20)], resets = 0\<rparr>"

subsection \<open>Scripted input\<close>

text \<open>
  A script presses one key for seat 0, then one key for seat 1, tick after tick: each key
  press is a batch of its own. \<open>joint_action_of\<close> is the joint action that \<open>on_event\<close>
  builds from the two keys. \<open>ticks_until_done\<close> counts the steps of the environment until
  it signals \<open>done\<close> (\<open>None\<close> when the actions run out before); \<open>env_rewards\<close> lists the reward
  of each step, the sum of \<open>info['sparse_r_by_agent']\<close>; \<open>logged\<close> lists the transitions that
  the steps until \<open>done\<close> append, for a session with layout name \<open>L\<close>, frame rate \<open>f\<close>, score
  \<open>sc\<close> and tick \<open>tk\<close>.
\<close>

definition joint_action_of :: "(action \<Rightarrow> int) \<Rightarrow> key \<times> key \<Rightarrow> pyval" where
  "joint_action_of a2i ks =
     PList [PInt (a2i (key_action (fst ks))), PInt (a2i (key_action (snd ks)))]"

definition scripted :: "(key \<times> key) list \<Rightarrow> event list list" where
  "scripted ks = concat (map (\<lambda>(k0, k1). [[KEYDOWN k0], [KEYDOWN k1]]) ks)"

fun ticks_until_done :: "'e env_ops \<Rightarrow> 'e \<Rightarrow> pyval list \<Rightarrow> nat option" where
  "ticks_until_done E e [] = None"
| "ticks_until_done E e (ja # jas) =
     (case env_step E e ja of
        (e', sparse_r, done) \<Rightarrow>
          if done then Some 1 else map_option Suc (ticks_until_done E e' jas))"

fun env_rewards :: "'e env_ops \<Rightarrow> 'e \<Rightarrow> pyval list \<Rightarrow> int list" where
  "env_rewards E e [] = []"
| "env_rewards E e (ja # jas) =
     (case env_step E e ja of
        (e', sparse_r, done) \<Rightarrow> sum_list sparse_r # env_rewards E e' jas)"

fun logged ::
  "'e env_ops \<Rightarrow> string \<Rightarrow> int \<Rightarrow> 'e \<Rightarrow> int \<Rightarrow> int \<Rightarrow> pyval list \<Rightarrow> 'e transition list" where
  "logged E L f e sc tk [] = []"
| "logged E L f e sc tk (ja # jas) =
     (case env_step E e ja of
        (e', sparse_r, done) \<Rightarrow>
          \<lparr>t_state = e, t_joint_action = ja, t_reward = sum_list sparse_r,
           t_time_left = max (of_int (1200 - tk) / of_int f) 0,
           t_score = sc + sum_list sparse_r,
           t_time_elapsed = of_int tk / of_int f,
           t_cur_gameloop = tk,
           t_layout = terrain_mtx E e', t_layout_name = L, t_trial_id = 100\<rparr>
          # (if done then [] else logged E L f e' (sc + sum_list sparse_r) (tk + 1) jas))"

definition demo_keys :: "(key \<times> key) list" where
  "demo_keys = [(K_s, K_s), (K_SPACE, K_s)]"

section \<open>Parsing a persisted joint action (\<open>str_to_actions\<close>)\<close>

text \<open>
  \<open>json.loads\<close>, \<open>eval\<close> and the table \<open>Action.ALL_ACTIONS\<close> belong to Python and to
  \<open>overcooked_ai_py\<close>: they are parameters. \<open>json_loads\<close> returns \<open>None\<close> for
  \<open>JSONDecodeError\<close>; \<open>py_eval\<close> returns the value of the expression or the exception it
  raises; \<open>in_ALL_ACTIONS\<close> is the test \<open>x in Action.ALL_ACTIONS\<close>.
\<close>

record py_lib =
  json_loads :: "string \<Rightarrow> pyval option"
  py_eval :: "string \<Rightarrow> py_error + pyval"
  in_ALL_ACTIONS :: "pyval \<Rightarrow> bool"

text \<open>\<open>str.lower()\<close>, on ASCII text.\<close>

definition py_lower :: "string \<Rightarrow> string" where
  "py_lower s =
     map (\<lambda>c. if 65 \<le> (of_char c :: nat) \<and> (of_char c :: nat) \<le> 90
              then char_of ((of_char c :: nat) + 32) else c) s"

text \<open>
  One round of the loop \<open>for i in range(2)\<close>: the element is read again after each
  assignment, as the source does; an assignment into a tuple or a string raises TypeError.
\<close>

definition normalise_at :: "py_lib \<Rightarrow> pyval \<Rightarrow> nat \<Rightarrow> py_error + pyval" where
  "normalise_at L ja i =
     (case py_getitem ja i of
        Inl e \<Rightarrow> Inl e
      | Inr x \<Rightarrow>
          (case (case x of PList xs \<Rightarrow> py_setitem ja i (PTuple xs) | _ \<Rightarrow> Inr ja) of
             Inl e \<Rightarrow> Inl e
           | Inr ja1 \<Rightarrow>
               (case py_getitem ja1 i of
                  Inl e \<Rightarrow> Inl e
                | Inr y \<Rightarrow>
                    (case (case y of PStr s \<Rightarrow> py_setitem ja1 i (PStr (py_lower s))
                                   | _ \<Rightarrow> Inr ja1) of
                       Inl e \<Rightarrow> Inl e
                     | Inr ja2 \<Rightarrow>
                         (case py_getitem ja2 i of
                            Inl e \<Rightarrow> Inl e
                          | Inr z \<Rightarrow>
                              if in_ALL_ACTIONS L z then Inr ja2
                              else Inl AssertionError)))))"

text \<open>
  \<open>str_to_actions\<close>. \<open>json.loads\<close> raises TypeError, which is not caught, for a cell that
  is not a string.
\<close>

definition str_to_actions :: "py_lib \<Rightarrow> pyval \<Rightarrow> py_error + pyval" where
  "str_to_actions L cell =
     (case cell of
        PStr s \<Rightarrow>
          (case (case json_loads L s of
                   Some v \<Rightarrow> Inr v
                 | None \<Rightarrow> py_eval L s) of
             Inl e \<Rightarrow> Inl e
           | Inr v \<Rightarrow>
               (case normalise_at L v 0 of
                  Inl e \<Rightarrow> Inl e
                | Inr v0 \<Rightarrow> normalise_at L v0 1))
      | _ \<Rightarrow> Inl TypeError)"

text \<open>What the loop makes of one element: a list becomes a tuple, a string is lowercased.\<close>

definition normalised :: "pyval \<Rightarrow> pyval" where
  "normalised x = (case x of PList xs \<Rightarrow> PTuple xs | PStr s \<Rightarrow> PStr (py_lower s) | _ \<Rightarrow> x)"


text \<open>
  Example cells and an example library: the action table of \<open>overcooked_ai_py\<close>, and
  \<open>json.loads\<close> and \<open>eval\<close> on four cells (\<open>[[1,0],"interact"]\<close>,
  \<open>[[0, 0], "INTERACT"]\<close>, the tuple literal \<open>((0, 1), 'interact')\<close> and the list
  literal \<open>[(0, 1), 'INTERACT', 7]\<close>; the last two are not JSON).
\<close>

definition overcooked_ALL_ACTIONS :: "pyval list" where
  "overcooked_ALL_ACTIONS =
     [PTuple [PInt 0, PInt (- 1)], PTuple [PInt 0, PInt 1], PTuple [PInt 1, PInt 0],
      PTuple [PInt (- 1), PInt 0], PTuple [PInt 0, PInt 0], PStr ''interact'']"

definition cell_json_pair :: string where
  "cell_json_pair = ''[[1,0],'' @ CHR 0x22 # ''interact'' @ CHR 0x22 # '']''"

definition cell_json_upper :: string where
  "cell_json_upper = ''[[0, 0], '' @ CHR 0x22 # ''INTERACT'' @ CHR 0x22 # '']''"

definition cell_literal_tuple :: string where
  "cell_literal_tuple = ''((0, 1), '' @ CHR 0x27 # ''interact'' @ CHR 0x27 # '')''"

definition cell_literal_list :: string where
  "cell_literal_list = ''[(0, 1), '' @ CHR 0x27 # ''INTERACT'' @ CHR 0x27 # '', 7]''"

definition demo_lib :: py_lib where
  "demo_lib =
     \<lparr>json_loads = (\<lambda>s. if s = cell_json_pair
                         then Some (PList [PList [PInt 1, PInt 0], PStr ''interact''])
                         else if s = cell_json_upper
                         then Some (PList [PList [PInt 0, PInt 0], PStr ''INTERACT''])
                         else None),
      py_eval = (\<lambda>s. if s = cell_literal_tuple
                      then Inr (PTuple [PTuple [PInt 0, PInt 1], PStr ''interact''])
                      else if s = cell_literal_list
                      then Inr (PList [PTuple [PInt 0, PInt 1], PStr ''INTERACT'', PInt 7])
                      else Inl OtherError),
      in_ALL_ACTIONS = (\<lambda>v. v \<in> set overcooked_ALL_ACTIONS)\<rparr>"

section \<open>REPLAY mode (\<open>App.replay_execution\<close>)\<close>

text \<open>
  A row of the trajectory data frame, for the two columns that the replay reads.
\<close>

record row =
  r_trial_id :: int
  r_joint_action :: pyval

text \<open>
  The loop \<open>for index, row in self.trajectory.iterrows()\<close>, with the cursor \<open>trial_id\<close>
  of the source as the argument \<open>trial\<close>. The loop does not test the running flag.
  The result holds the cursor and the session.
\<close>

fun replay_rows ::
  "py_lib \<Rightarrow> 'e env_ops \<Rightarrow> row list \<Rightarrow> int \<Rightarrow> 'e app \<Rightarrow> py_error + int \<times> 'e app" where
  "replay_rows L E [] trial s = Inr (trial, s)"
| "replay_rows L E (r # rows) trial s =
     (if r_trial_id r = trial \<and> \<not> env_is_done E (env s)
      then (case str_to_actions L (r_joint_action r) of
              Inl e \<Rightarrow> Inl e
            | Inr ja \<Rightarrow>
                (case on_loop E (s\<lparr>joint_action := ja\<rparr>) of
                   Inl e \<Rightarrow> Inl e
                 | Inr s' \<Rightarrow> replay_rows L E rows trial s'))
      else replay_rows L E rows (r_trial_id r)
             (s\<lparr>env := env_reset E (env s),
                stdout := stdout s @ [(curr_tick s, score s)],
                resets := resets s + 1,
                score := 0,
                curr_tick := 0\<rparr>))"

text \<open>
  \<open>replay_execution\<close>: \<open>1000 // self.fps\<close> raises ZeroDivisionError for the frame rate
  0, and \<open>self.trajectory.iloc[0]\<close> raises IndexError on an empty data frame.
\<close>

definition replay_execution ::
  "py_lib \<Rightarrow> 'e env_ops \<Rightarrow> row list \<Rightarrow> 'e app \<Rightarrow> py_error + 'e app" where
  "replay_execution L E rows s =
     (if fps s = 0 then Inl ZeroDivisionError
      else (case rows of
              [] \<Rightarrow> Inl IndexError
            | r # _ \<Rightarrow>
                (case replay_rows L E rows (r_trial_id r) (s\<lparr>running := True\<rparr>) of
                   Inl e \<Rightarrow> Inl e
                 | Inr (trial, s') \<Rightarrow> Inr s')))"

text \<open>
  An example log of two trials, an environment that is done after four steps, and a
  session in replay mode.
\<close>

definition demo_rows :: "row list" where
  "demo_rows =
     [\<lparr>r_trial_id = 1, r_joint_action = PStr cell_json_upper\<rparr>,
      \<lparr>r_trial_id = 1, r_joint_action = PStr cell_json_pair\<rparr>,
      \<lparr>r_trial_id = 1, r_joint_action = PStr cell_json_pair\<rparr>,
      \<lparr>r_trial_id = 2, r_joint_action = PStr cell_json_pair\<rparr>,
      \<lparr>r_trial_id = 2, r_joint_action = PStr cell_json_upper\<rparr>]"

definition replay_env :: "nat env_ops" where
  "replay_env =
     \<lparr>env_step = (\<lambda>n ja. (Suc n,
                    (if py_getitem ja 1 = Inr (PStr ''interact'') then [20, 0] else [0, 0]),
                    4 \<le> Suc n)),
      env_reset = (\<lambda>n. 0),
      env_is_done = (\<lambda>n. 4 \<le> n),
      terrain_mtx = (\<lambda>n. [''XPX'', ''O S''])\<rparr>"

definition replay_s0 :: "nat app" where
  "replay_s0 =
     \<lparr>running = True, env = 0, layout_name = ''forced_coordination'', fps = 3, score = 0,
      curr_tick = 0, joint_action = PList [PNone, PNone], collect_trajectory = False,
      trajectory = [], trial_id = 0, stdout = [], resets = 0\<rparr>"

section \<open>Agents (\<open>oai_agents/agents/base_agent.py\<close>)\<close>

text \<open>
  \<open>argparse.Namespace\<close> is a list of attributes and values. An agent object holds its
  class, the attributes that \<open>OAIAgent.__init__\<close> sets, and its weights (what
  \<open>state_dict()\<close> returns). \<open>Concrete n\<close> stands for a concrete subclass named \<open>n\<close> that
  keeps the constructor \<open>(name, args)\<close> of \<open>OAIAgent\<close>.
\<close>

type_synonym namespace = "(string \<times> pyval) list"

datatype agent_class = OAIAgent | SB3Wrapper | SB3LSTMWrapper | HumanManagerHRL | Concrete string

record ('st, 'obs, 'w) oai_agent =
  a_class :: agent_class
  a_name :: string
  a_encoding_fn :: "'st \<Rightarrow> int \<Rightarrow> 'obs"
  a_args :: namespace
  a_p_idx :: "int option"
  a_state_dict :: 'w


text \<open>\<open>xs[i]\<close> for a Python list and an integer: a negative index counts from the end.\<close>

definition py_index :: "'a list \<Rightarrow> int \<Rightarrow> py_error + 'a" where
  "py_index xs i =
     (if 0 \<le> i \<and> i < int (length xs) then Inr (xs ! nat i)
      else if i < 0 \<and> - int (length xs) \<le> i then Inr (xs ! nat (int (length xs) + i))
      else Inl IndexError)"

text \<open>
  \<open>OAIAgent.action\<close>. \<open>predict\<close> is abstract in \<open>OAIAgent\<close>: the method of the subclass
  is a parameter, which returns its result and the object as it leaves it, or raises.
  \<open>INDEX_TO_ACTION\<close> is the table \<open>Action.INDEX_TO_ACTION\<close> of the library.
\<close>

definition action ::
  "(('st, 'obs, 'w, 'z) oai_agent_scheme \<Rightarrow> 'obs \<Rightarrow> 'h option \<Rightarrow> bool list option \<Rightarrow> bool \<Rightarrow>
      py_error + (int \<times> 'h option) \<times> ('st, 'obs, 'w, 'z) oai_agent_scheme) \<Rightarrow>
   'act list \<Rightarrow> ('st, 'obs, 'w, 'z) oai_agent_scheme \<Rightarrow> 'st \<Rightarrow> py_error + 'act" where
  "action predict INDEX_TO_ACTION self overcooked_state =
     (case a_p_idx self of
        None \<Rightarrow> Inl ValueError
      | Some p \<Rightarrow>
          let obs = a_encoding_fn self overcooked_state p
          in (case predict self obs None None True of
                Inl e \<Rightarrow> Inl e
              | Inr ((act, state), self') \<Rightarrow> py_index INDEX_TO_ACTION act))"



subsection \<open>The wrappers of stable-baselines agents\<close>

text \<open>
  The wrapped agent \<open>self.agent\<close> is of the library: its \<open>predict\<close> is the parameter
  \<open>sb3_predict\<close>, which returns the action and the new recurrent state.
\<close>

record ('st, 'obs, 'w, 'd) sb3_wrapper = "('st, 'obs, 'w) oai_agent" +
  agent :: 'd
  num_timesteps :: int

record ('st, 'obs, 'w, 'd, 'h) sb3_lstm_wrapper = "('st, 'obs, 'w, 'd) sb3_wrapper" +
  lstm_states :: "'h option"

definition SB3Wrapper_predict ::
  "('d \<Rightarrow> 'obs \<Rightarrow> 'h option \<Rightarrow> bool list option \<Rightarrow> bool \<Rightarrow> int \<times> 'h option) \<Rightarrow>
   ('st, 'obs, 'w, 'd, 'z) sb3_wrapper_scheme \<Rightarrow> 'obs \<Rightarrow> 'h option \<Rightarrow> bool list option \<Rightarrow> bool \<Rightarrow>
   py_error + (int \<times> 'h option) \<times> ('st, 'obs, 'w, 'd, 'z) sb3_wrapper_scheme" where
  "SB3Wrapper_predict sb3_predict self obs state episode_start deterministic =
     Inr (sb3_predict (agent self) obs state episode_start deterministic, self)"

text \<open>
  The truth value of \<open>episode_start\<close> in \<open>episode_start or np.ones((1,), dtype=bool)\<close>:
  \<open>None\<close> is false, an array of one element has the truth value of the element, an
  empty array is false, and a longer array raises ValueError.
\<close>

definition array_truth :: "bool list option \<Rightarrow> py_error + bool" where
  "array_truth a =
     (case a of
        None \<Rightarrow> Inr False
      | Some [] \<Rightarrow> Inr False
      | Some [b] \<Rightarrow> Inr b
      | Some _ \<Rightarrow> Inl ValueError)"

definition SB3LSTMWrapper_predict ::
  "('d \<Rightarrow> 'obs \<Rightarrow> 'h option \<Rightarrow> bool list option \<Rightarrow> bool \<Rightarrow> int \<times> 'h option) \<Rightarrow>
   ('st, 'obs, 'w, 'd, 'h) sb3_lstm_wrapper \<Rightarrow> 'obs \<Rightarrow> 'h option \<Rightarrow> bool list option \<Rightarrow> bool \<Rightarrow>
   py_error + (int \<times> 'h option) \<times> ('st, 'obs, 'w, 'd, 'h) sb3_lstm_wrapper" where
  "SB3LSTMWrapper_predict sb3_predict self obs state episode_start deterministic =
     (case array_truth episode_start of
        Inl e \<Rightarrow> Inl e
      | Inr truthy \<Rightarrow>
          let episode_start' = (if truthy then episode_start else Some [True]);
              (act, new_states) = sb3_predict (agent self) obs state episode_start' deterministic;
              self' = self\<lparr>lstm_states := new_states\<rparr>
          in Inr ((act, lstm_states self'), self'))"

text \<open>
  An example of a recurrent agent of the library, with its convention: the carried state
  is used unless \<open>episode_start\<close> is set, which resets it. The state counts the calls since
  the last reset, and the action is the state.
\<close>

definition counting_lstm ::
  "unit \<Rightarrow> nat \<Rightarrow> nat option \<Rightarrow> bool list option \<Rightarrow> bool \<Rightarrow> int \<times> nat option" where
  "counting_lstm d obs state episode_start deterministic =
     (let carried = (case state of None \<Rightarrow> 0 | Some h \<Rightarrow> h);
          reset = (case episode_start of None \<Rightarrow> False | Some es \<Rightarrow> list_ex id es);
          h = (if reset then 0 else carried)
      in (int h, Some (Suc h)))"

definition demo_lstm_wrapper :: "(nat, nat, unit, unit, nat) sb3_lstm_wrapper" where
  "demo_lstm_wrapper =
     \<lparr>a_class = SB3LSTMWrapper, a_name = ''lstm'',
      a_encoding_fn = (\<lambda>st p. st), a_args = [(''encoding_fn'', PStr ''OAI_feats'')],
      a_p_idx = None, a_state_dict = (), agent = (), num_timesteps = 0,
      lstm_states = None\<rparr>"

subsection \<open>Checkpoints (\<open>OAIAgent.save\<close> and \<open>OAIAgent.load\<close>)\<close>

text \<open>
  \<open>th.save\<close> and \<open>th.load\<close> work on a store of files: a list of paths and contents, the
  newest first. A file holds what \<open>OAIAgent.save\<close> writes (the dictionary with
  \<open>agent_type\<close>, \<open>state_dict\<close>, \<open>const_params\<close> and \<open>args\<close>) or what
  \<open>OAITrainer.save_agents\<close> writes (a dictionary of named entries). \<open>const_params\<close> is
  the dictionary of keyword arguments that \<open>_get_constructor_parameters\<close> builds.
\<close>

datatype kwarg = KStr string | KArgs namespace

record 'w checkpoint =
  agent_type :: agent_class
  state_dict :: 'w
  const_params :: "(string \<times> kwarg) list"
  saved_args :: namespace

datatype manifest_val = MType agent_class | MList "string list"

datatype 'w stored = AgentFile "'w checkpoint" | TrainerFile "(string \<times> manifest_val) list"

type_synonym 'w fs = "(string \<times> 'w stored) list"

definition th_save :: "'w stored \<Rightarrow> string \<Rightarrow> 'w fs \<Rightarrow> 'w fs" where
  "th_save obj path fs = (path, obj) # fs"

definition th_load :: "string \<Rightarrow> 'w fs \<Rightarrow> 'w stored option" where
  "th_load path fs = map_of fs path"

text \<open>\<open>d[k] = v\<close> on a dictionary kept as a list of entries in insertion order.\<close>

definition dict_set :: "'k \<Rightarrow> 'v \<Rightarrow> ('k \<times> 'v) list \<Rightarrow> ('k \<times> 'v) list" where
  "dict_set k v d =
     (if k \<in> set (map fst d) then map (\<lambda>kv. if fst kv = k then (k, v) else kv) d
      else d @ [(k, v)])"

text \<open>
  The names imported from \<open>oai_agents.common\<close> are parameters: the table
  \<open>ENCODING_SCHEMES\<close> (a missing key is \<open>None\<close>), \<open>get_args_to_save\<close>, and
  \<open>set_args_from_load\<close>, which changes \<open>args\<close> in place and is given here by the \<open>args\<close> it
  leaves. \<open>init_state_dict\<close> gives the weights of a freshly constructed object.
\<close>

record ('st, 'obs, 'w) agent_lib =
  ENCODING_SCHEMES :: "string \<Rightarrow> ('st \<Rightarrow> int \<Rightarrow> 'obs) option"
  get_args_to_save :: "namespace \<Rightarrow> namespace"
  set_args_from_load :: "namespace \<Rightarrow> namespace \<Rightarrow> namespace"
  init_state_dict :: "agent_class \<Rightarrow> string \<Rightarrow> namespace \<Rightarrow> 'w"

text \<open>
  \<open>OAIAgent.__init__(self, name, args)\<close>; \<open>args.encoding_fn\<close> raises AttributeError when
  the attribute is missing, and the lookup in the table raises KeyError for an unknown key
  and TypeError for an unhashable one. (\<open>self.policy = None\<close> is not kept: nothing here
  reads it.)
\<close>

definition OAIAgent_init ::
  "('st, 'obs, 'w) agent_lib \<Rightarrow> agent_class \<Rightarrow> string \<Rightarrow> namespace \<Rightarrow>
     py_error + ('st, 'obs, 'w) oai_agent" where
  "OAIAgent_init P cls name args =
     (case map_of args ''encoding_fn'' of
        None \<Rightarrow> Inl AttributeError
      | Some (PStr k) \<Rightarrow>
          (case ENCODING_SCHEMES P k of
             None \<Rightarrow> Inl KeyError
           | Some f \<Rightarrow>
               Inr \<lparr>a_class = cls, a_name = name, a_encoding_fn = f, a_args = args,
                    a_p_idx = None, a_state_dict = init_state_dict P cls name args\<rparr>)
      | Some (PList xs) \<Rightarrow> Inl TypeError
      | Some (PDict kvs) \<Rightarrow> Inl TypeError
      | Some v \<Rightarrow> Inl KeyError)"

text \<open>
  \<open>cls(**const_params)\<close>. The parameters of \<open>__init__\<close> are those of the source for each
  class; a keyword that is not a parameter, or a parameter without a value, raises
  TypeError, and so does instantiating the abstract class \<open>OAIAgent\<close>. The keyword values
  that \<open>save\<close> stores are a name and an \<open>args\<close>, so only a constructor with exactly these
  two parameters can be called with them.
\<close>

fun init_params :: "agent_class \<Rightarrow> string list" where
  "init_params OAIAgent = [''name'', ''args'']"
| "init_params SB3Wrapper = [''agent'', ''name'', ''args'']"
| "init_params SB3LSTMWrapper = [''agent'', ''name'', ''args'']"
| "init_params HumanManagerHRL = [''worker'', ''args'']"
| "init_params (Concrete n) = [''name'', ''args'']"

definition construct ::
  "('st, 'obs, 'w) agent_lib \<Rightarrow> agent_class \<Rightarrow> (string \<times> kwarg) list \<Rightarrow>
     py_error + ('st, 'obs, 'w) oai_agent" where
  "construct P cls kwargs =
     (if cls = OAIAgent then Inl TypeError
      else if set (map fst kwargs) \<noteq> set (init_params cls) then Inl TypeError
      else (case cls of
              Concrete n \<Rightarrow>
                (case (map_of kwargs ''name'', map_of kwargs ''args'') of
                   (Some (KStr name), Some (KArgs args)) \<Rightarrow> OAIAgent_init P cls name args
                 | _ \<Rightarrow> Inl TypeError)
            | _ \<Rightarrow> Inl TypeError))"

text \<open>\<open>OAIAgent._get_constructor_parameters\<close> and \<open>OAIAgent.save\<close>.\<close>

definition get_constructor_parameters ::
  "('st, 'obs, 'w, 'z) oai_agent_scheme \<Rightarrow> (string \<times> kwarg) list" where
  "get_constructor_parameters self = [(''name'', KStr (a_name self)), (''args'', KArgs (a_args self))]"

definition OAIAgent_save ::
  "('st, 'obs, 'w) agent_lib \<Rightarrow> ('st, 'obs, 'w, 'z) oai_agent_scheme \<Rightarrow> string \<Rightarrow> 'w fs \<Rightarrow> 'w fs" where
  "OAIAgent_save P self path fs =
     (let args = get_args_to_save P (a_args self)
      in th_save (AgentFile \<lparr>agent_type = a_class self, state_dict = a_state_dict self,
                              const_params = get_constructor_parameters self,
                              saved_args = args\<rparr>) path fs)"

text \<open>
  \<open>OAIAgent.load\<close>, a class method: \<open>cls\<close> is the class it is called on, and the saved
  \<open>agent_type\<close> is not read. \<open>model.load_state_dict\<close> replaces the weights by the saved
  ones.
\<close>

definition OAIAgent_load ::
  "('st, 'obs, 'w) agent_lib \<Rightarrow> agent_class \<Rightarrow> string \<Rightarrow> namespace \<Rightarrow> 'w fs \<Rightarrow>
     py_error + ('st, 'obs, 'w) oai_agent" where
  "OAIAgent_load P cls path args fs =
     (case map_of args ''device'' of
        None \<Rightarrow> Inl AttributeError
      | Some device \<Rightarrow>
          (case th_load path fs of
             None \<Rightarrow> Inl FileNotFoundError
           | Some (TrainerFile d) \<Rightarrow> Inl KeyError
           | Some (AgentFile saved_variables) \<Rightarrow>
               let args' = set_args_from_load P (saved_args saved_variables) args;
                   params = dict_set ''args'' (KArgs args') (const_params saved_variables)
               in (case construct P cls params of
                     Inl e \<Rightarrow> Inl e
                   | Inr model \<Rightarrow>
                       Inr (model\<lparr>a_state_dict := state_dict saved_variables\<rparr>))))"

subsection \<open>The trainer (\<open>OAITrainer.save_agents\<close> and \<open>OAITrainer.load_agents\<close>)\<close>

text \<open>
  A trainer with its list of agents. \<open>path or \<dots>\<close> and \<open>tag or \<dots>\<close> take the default when
  the argument is \<open>None\<close> (or an empty string, for \<open>tag\<close>); the defaults read attributes of
  \<open>self.args\<close>. A path is a string, and \<open>/\<close> joins two of them.
\<close>

record ('st, 'obs, 'w) oai_trainer =
  t_name :: string
  t_args :: namespace
  agents :: "('st, 'obs, 'w) oai_agent list"

definition attr_str :: "namespace \<Rightarrow> string \<Rightarrow> py_error + string" where
  "attr_str args k =
     (case map_of args k of
        None \<Rightarrow> Inl AttributeError
      | Some (PStr s) \<Rightarrow> Inr s
      | Some v \<Rightarrow> Inl TypeError)"

definition default_path :: "('st, 'obs, 'w) oai_trainer \<Rightarrow> string option \<Rightarrow> py_error + string" where
  "default_path self path =
     (case path of
        Some p \<Rightarrow> Inr p
      | None \<Rightarrow>
          (case attr_str (t_args self) ''base_dir'' of
             Inl e \<Rightarrow> Inl e
           | Inr base_dir \<Rightarrow>
               (case attr_str (t_args self) ''layout_name'' of
                  Inl e \<Rightarrow> Inl e
                | Inr layout \<Rightarrow>
                    Inr (base_dir @ ''/agent_models/'' @ t_name self @ ''/'' @ layout))))"

definition default_tag :: "('st, 'obs, 'w) oai_trainer \<Rightarrow> string option \<Rightarrow> py_error + string" where
  "default_tag self tag =
     (case tag of
        Some (c # cs) \<Rightarrow> Inr (c # cs)
      | _ \<Rightarrow> attr_str (t_args self) ''exp_name'')"

text \<open>
  The loop of \<open>save_agents\<close> over \<open>enumerate(self.agents)\<close>: the agent is saved, then
  \<open>save_dict['agent_paths']\<close> is looked up (KeyError for a missing key) and the file name
  appended to it. The agents are saved by \<open>OAIAgent.save\<close>.
\<close>

fun save_agents_loop ::
  "('st, 'obs, 'w) agent_lib \<Rightarrow> string \<Rightarrow> nat \<Rightarrow> ('st, 'obs, 'w) oai_agent list \<Rightarrow>
   (string \<times> manifest_val) list \<Rightarrow> 'w fs \<Rightarrow> 'w fs \<times> (py_error + (string \<times> manifest_val) list)" where
  "save_agents_loop P agent_path i [] save_dict fs = (fs, Inr save_dict)"
| "save_agents_loop P agent_path i (a # rest) save_dict fs =
     (let agent_path_i = agent_path @ ''/agent_'' @ str_int (int i);
          fs1 = OAIAgent_save P a agent_path_i fs
      in (case map_of save_dict ''agent_paths'' of
            None \<Rightarrow> (fs1, Inl KeyError)
          | Some (MType c) \<Rightarrow> (fs1, Inl AttributeError)
          | Some (MList xs) \<Rightarrow>
              save_agents_loop P agent_path (Suc i) rest
                (dict_set ''agent_paths'' (MList (xs @ [''agent_'' @ str_int (int i)])) save_dict)
                fs1))"

text \<open>
  \<open>save_agents\<close> returns the store as it leaves it, and \<open>(path, tag)\<close> or the exception.
  \<open>self.agents[0]\<close> raises IndexError for an empty list. (\<open>mkdir\<close> creates directories
  only; the store holds files.)
\<close>

definition save_agents ::
  "('st, 'obs, 'w) agent_lib \<Rightarrow> ('st, 'obs, 'w) oai_trainer \<Rightarrow> string option \<Rightarrow> string option \<Rightarrow>
   'w fs \<Rightarrow> 'w fs \<times> (py_error + string \<times> string)" where
  "save_agents P self path tag fs =
     (case default_path self path of
        Inl e \<Rightarrow> (fs, Inl e)
      | Inr path' \<Rightarrow>
          (case default_tag self tag of
             Inl e \<Rightarrow> (fs, Inl e)
           | Inr tag' \<Rightarrow>
               let save_path = path' @ ''/'' @ tag' @ ''/trainer_file'';
                   agent_path = path' @ ''/'' @ tag' @ ''/agents_dir''
               in (case agents self of
                     [] \<Rightarrow> (fs, Inl IndexError)
                   | a0 # rest \<Rightarrow>
                       let save_dict = [(''model_type'', MType (a_class a0)),
                                        (''agent_fns'', MList [])]
                       in (case save_agents_loop P agent_path 0 (agents self) save_dict fs of
                             (fs1, Inl e) \<Rightarrow> (fs1, Inl e)
                           | (fs1, Inr save_dict') \<Rightarrow>
                               (th_save (TrainerFile save_dict') save_path fs1,
                                Inr (path', tag'))))))"

text \<open>
  \<open>load_agents\<close>: the loop over \<open>saved_variables['agent_fns']\<close>, then the method. Each
  agent is loaded by \<open>OAIAgent.load\<close>, called on the class stored as \<open>model_type\<close>.
\<close>

fun load_agents_loop ::
  "('st, 'obs, 'w) agent_lib \<Rightarrow> (string \<times> manifest_val) list \<Rightarrow> string \<Rightarrow> namespace \<Rightarrow> 'w fs \<Rightarrow>
   string list \<Rightarrow> py_error + ('st, 'obs, 'w) oai_agent list" where
  "load_agents_loop P saved_variables agent_path args fs [] = Inr []"
| "load_agents_loop P saved_variables agent_path args fs (agent_fn # rest) =
     (case map_of saved_variables ''model_type'' of
        None \<Rightarrow> Inl KeyError
      | Some (MList xs) \<Rightarrow> Inl AttributeError
      | Some (MType cls) \<Rightarrow>
          (case OAIAgent_load P cls (agent_path @ ''/'' @ agent_fn) args fs of
             Inl e \<Rightarrow> Inl e
           | Inr model \<Rightarrow>
               (case load_agents_loop P saved_variables agent_path args fs rest of
                  Inl e \<Rightarrow> Inl e
                | Inr loaded \<Rightarrow> Inr (model # loaded))))"

definition load_agents ::
  "('st, 'obs, 'w) agent_lib \<Rightarrow> ('st, 'obs, 'w) oai_trainer \<Rightarrow> string option \<Rightarrow> string option \<Rightarrow>
   'w fs \<Rightarrow> py_error + ('st, 'obs, 'w) oai_trainer" where
  "load_agents P self path tag fs =
     (case default_path self path of
        Inl e \<Rightarrow> Inl e
      | Inr path' \<Rightarrow>
          (case default_tag self tag of
             Inl e \<Rightarrow> Inl e
           | Inr tag' \<Rightarrow>
               let load_path = path' @ ''/'' @ tag' @ ''/trainer_file'';
                   agent_path = path' @ ''/'' @ tag' @ ''/agents_dir''
               in (case map_of (t_args self) ''device'' of
                     None \<Rightarrow> Inl AttributeError
                   | Some device \<Rightarrow>
                       (case th_load load_path fs of
                          None \<Rightarrow> Inl FileNotFoundError
                        | Some (AgentFile c) \<Rightarrow> Inl KeyError
                        | Some (TrainerFile saved_variables) \<Rightarrow>
                            (case map_of saved_variables ''agent_fns'' of
                               None \<Rightarrow> Inl KeyError
                             | Some (MType c) \<Rightarrow> Inl TypeError
                             | Some (MList fns) \<Rightarrow>
                                 (case load_agents_loop P saved_variables agent_path
                                         (t_args self) fs fns of
                                    Inl e \<Rightarrow> Inl e
                                  | Inr loaded \<Rightarrow> Inr (self\<lparr>agents := loaded\<rparr>)))))))"

text \<open>The trainer files of a store, and the exception of an outcome.\<close>

definition is_manifest :: "'w stored \<Rightarrow> bool" where
  "is_manifest f = (case f of TrainerFile d \<Rightarrow> True | AgentFile c \<Rightarrow> False)"

definition manifests :: "'w fs \<Rightarrow> 'w fs" where
  "manifests fs = filter (\<lambda>kv. is_manifest (snd kv)) fs"

definition raised :: "'e + 'a \<Rightarrow> 'e option" where
  "raised r = (case r of Inl e \<Rightarrow> Some e | Inr x \<Rightarrow> None)"

text \<open>
  An example: a library, an agent with trained weights, a \<open>predict\<close> that reads the
  weights, the \<open>args\<close> of a later run, and a trainer of this one agent.
\<close>

definition demo_agent_lib :: "(nat, nat, int list) agent_lib" where
  "demo_agent_lib =
     \<lparr>ENCODING_SCHEMES = (\<lambda>k. if k = ''OAI_feats'' then Some (\<lambda>st p. st + nat p) else None),
      get_args_to_save = filter (\<lambda>kv. fst kv \<noteq> ''device''),
      set_args_from_load = (\<lambda>saved args. args @ filter (\<lambda>kv. fst kv \<notin> set (map fst args)) saved),
      init_state_dict = (\<lambda>cls name args. [0, 0, 0])\<rparr>"

definition trained_agent :: "(nat, nat, int list) oai_agent" where
  "trained_agent =
     \<lparr>a_class = Concrete ''DummyAgent'', a_name = ''dummy'',
      a_encoding_fn = (\<lambda>st p. st + nat p),
      a_args = [(''encoding_fn'', PStr ''OAI_feats''), (''device'', PStr ''cuda'')],
      a_p_idx = Some 1, a_state_dict = [3, 1, 4]\<rparr>"


definition demo_load_args :: namespace where
  "demo_load_args = [(''device'', PStr ''cpu''), (''encoding_fn'', PStr ''OAI_feats''),
                     (''base_dir'', PStr ''/data''), (''layout_name'', PStr ''forced_coordination''),
                     (''exp_name'', PStr ''run1'')]"

definition demo_trainer :: "(nat, nat, int list) oai_trainer" where
  "demo_trainer = \<lparr>t_name = ''bc'', t_args = demo_load_args, agents = [trained_agent]\<rparr>"

subsection \<open>The hierarchical controller (\<open>HumanManagerHRL\<close> of \<open>scripts/run_overcooked_game.py\<close>)\<close>

text \<open>
  An observation is a dictionary of named entries; an entry is \<open>None\<close>, an array of
  integers, an integer, or another value (a tensor). The controller is an agent with a
  worker, the current subtask and \<open>prev_pcs\<close>.
\<close>

datatype 'x oval = ONone | OArr "int list" | OInt int | OOther 'x

type_synonym 'x obs_dict = "(string \<times> 'x oval) list"

record ('st, 'obs, 'w, 'wk) human_manager_hrl = "('st, 'obs, 'w) oai_agent" +
  worker :: 'wk
  curr_subtask_id :: int
  prev_pcs :: "int list option"

text \<open>
  The collaborators are parameters: the table \<open>Subtasks.IDS_TO_SUBTASKS\<close>, \<open>int()\<close>,
  what numpy answers for \<open>np.sum(v) == 1\<close>, \<open>np.argmax(v, axis=0)\<close> and \<open>enumerate(v)\<close>
  on a value that is not an array of integers, and the two methods of the worker, which
  return their result and the worker as they leave it.
\<close>

record ('x, 'wk, 'h, 'dist) hrl_lib =
  IDS_TO_SUBTASKS :: "int \<Rightarrow> py_error + string"
  builtin_int :: "string \<Rightarrow> py_error + int"
  np_sum_other :: "'x oval \<Rightarrow> py_error + bool"
  np_argmax_other :: "'x oval \<Rightarrow> py_error + int"
  enumerate_other :: "'x oval \<Rightarrow> py_error + int list"
  worker_get_distribution :: "'wk \<Rightarrow> 'x obs_dict \<Rightarrow> bool \<Rightarrow> py_error + 'dist \<times> 'wk"
  worker_predict ::
    "'wk \<Rightarrow> 'x obs_dict \<Rightarrow> 'h option \<Rightarrow> bool list option \<Rightarrow> bool \<Rightarrow>
       py_error + (int \<times> 'h option) \<times> 'wk"

text \<open>\<open>HumanManagerHRL.__init__(self, worker, args)\<close>.\<close>

definition HumanManagerHRL_init ::
  "('st, 'obs, 'w) agent_lib \<Rightarrow> 'wk \<Rightarrow> namespace \<Rightarrow>
     py_error + ('st, 'obs, 'w, 'wk) human_manager_hrl" where
  "HumanManagerHRL_init P wk args =
     (case OAIAgent_init P HumanManagerHRL ''hierarchical_rl'' args of
        Inl e \<Rightarrow> Inl e
      | Inr base \<Rightarrow>
          Inr \<lparr>a_class = a_class base, a_name = a_name base, a_encoding_fn = a_encoding_fn base,
               a_args = a_args base, a_p_idx = a_p_idx base, a_state_dict = a_state_dict base,
               worker = wk, curr_subtask_id = 11, prev_pcs = None\<rparr>)"





text \<open>
  \<open>next_st = input(\<dots>); self.curr_subtask_id = int(next_st)\<close>. The console input is a
  list of lines; \<open>input\<close> raises EOFError when none is left. The result is the object, the
  remaining input, and the exception if one was raised.
\<close>

definition read_subtask ::
  "('x, 'wk, 'h, 'dist) hrl_lib \<Rightarrow> ('st, 'obs, 'w, 'wk) human_manager_hrl \<Rightarrow> string list \<Rightarrow>
     ('st, 'obs, 'w, 'wk) human_manager_hrl \<times> string list \<times> py_error option" where
  "read_subtask lib self stdin =
     (case stdin of
        [] \<Rightarrow> (self, [], Some EOFError)
      | next_st # rest \<Rightarrow>
          (case builtin_int lib next_st of
             Inl e \<Rightarrow> (self, rest, Some e)
           | Inr n \<Rightarrow> (self\<lparr>curr_subtask_id := n\<rparr>, rest, None)))"













section \<open>Properties of the session driver\<close>

lemma on_event_frame:
  "on_event a2i i ev s = Inr s' \<Longrightarrow> same_session s s' \<and> trajectory s' = trajectory s"
  by (cases ev) (auto simp: same_session_def split: sum.splits)

lemma on_events_frame:
  "on_events a2i i evs s = Inr s' \<Longrightarrow> same_session s s' \<and> trajectory s' = trajectory s"
proof (induction evs arbitrary: s)
  case Nil
  then show ?case by (simp add: same_session_def)
next
  case (Cons ev evs)
  then obtain s1 where a: "on_event a2i i ev s = Inr s1" and b: "on_events a2i i evs s1 = Inr s'"
    by (auto split: sum.splits)
  from on_event_frame [OF a] Cons.IH [OF b] show ?case
    by (simp add: same_session_def)
qed

lemma wait_for_action_frame:
  "wait_for_action a2i i bs s = Some (Inr (s', bs')) \<Longrightarrow>
   same_session s s' \<and> trajectory s' = trajectory s"
proof (induction bs arbitrary: s)
  case Nil
  then show ?case by (auto simp: same_session_def split: sum.splits if_splits)
next
  case (Cons b bs)
  show ?case
  proof (cases "py_getitem (joint_action s) i = Inr PNone")
    case True
    with Cons.prems obtain s1 where a: "on_events a2i i b s = Inr s1"
      and b: "wait_for_action a2i i bs s1 = Some (Inr (s', bs'))"
      by (auto split: sum.splits)
    from on_events_frame [OF a] Cons.IH [OF b] show ?thesis
      by (simp add: same_session_def)
  next
    case False
    with Cons.prems show ?thesis
      by (auto simp: same_session_def split: sum.splits if_splits)
  qed
qed

lemma step_env_frame:
  assumes "step_env E s ja = Inr (d, s')"
  shows "same_session s s' \<and>
         (collect_trajectory s \<longrightarrow>
            (\<exists>t. t_trial_id t = 100 \<and> trajectory s' = trajectory s @ [t])) \<and>
         (\<not> collect_trajectory s \<longrightarrow> trajectory s' = trajectory s)"
  using assms
  by (auto simp: step_env_def same_session_def Let_def split: prod.splits if_splits)

lemma on_loop_frame:
  assumes "on_loop E s = Inr s'"
  shows "same_session s s' \<and>
         (collect_trajectory s \<longrightarrow>
            (\<exists>t. t_trial_id t = 100 \<and> trajectory s' = trajectory s @ [t])) \<and>
         (\<not> collect_trajectory s \<longrightarrow> trajectory s' = trajectory s)"
proof -
  from assms obtain d s1 where a: "step_env E s (joint_action s) = Inr (d, s1)"
    and b: "s' = (if d then s1\<lparr>joint_action := PList [PNone, PNone], curr_tick := curr_tick s1 + 1, running := False\<rparr>
                  else s1\<lparr>joint_action := PList [PNone, PNone], curr_tick := curr_tick s1 + 1\<rparr>)"
    by (auto simp: on_loop_def Let_def split: sum.splits if_splits)
  from step_env_frame [OF a] b show ?thesis
    by (auto simp: same_session_def)
qed

lemma collection_loop_frame:
  "collection_loop E a2i bs s = Some (Inr s') \<Longrightarrow>
   list_all (\<lambda>t. t_trial_id t = 100) (trajectory s) \<Longrightarrow>
   same_session s s' \<and> list_all (\<lambda>t. t_trial_id t = 100) (trajectory s')"
proof (induction E a2i bs s rule: collection_loop.induct)
  case (1 E a2i bs s)
  show ?case
  proof (cases "running s")
    case False
    with "1.prems" show ?thesis
      by (simp add: collection_loop.simps same_session_def)
  next
    case True
    with "1.prems"(1) obtain s1 bs1 s2 bs2 s3 where
      w0: "wait_for_action a2i 0 bs (s\<lparr>joint_action := PList [PNone, PNone]\<rparr>) = Some (Inr (s1, bs1))"
      and w1: "wait_for_action a2i 1 bs1 s1 = Some (Inr (s2, bs2))"
      and ol: "on_loop E s2 = Inr s3"
      and rec: "collection_loop E a2i bs2 s3 = Some (Inr s')"
      by (subst (asm) collection_loop.simps) (auto split: option.splits sum.splits)
    from wait_for_action_frame [OF w0] wait_for_action_frame [OF w1] on_loop_frame [OF ol]
    have f3: "same_session s s3" and t3: "list_all (\<lambda>t. t_trial_id t = 100) (trajectory s3)"
      using "1.prems"(2) by (auto simp: same_session_def)
    from True have nn: "\<not> \<not> running s" by simp
    from "1.IH" [OF nn w0 refl refl w1 refl refl ol rec t3] f3 show ?thesis
      by (simp add: same_session_def)
  qed
qed

lemma split_on_nonempty: "split_on sep s \<noteq> []"
  by (induction s) (auto split: list.splits)

lemma split_on_append:
  "split_on sep (xs @ sep # ys) = split_on sep xs @ split_on sep ys"
proof (induction xs)
  case Nil
  then show ?case by simp
next
  case (Cons c xs)
  obtain p ps where "split_on sep xs = p # ps"
    using split_on_nonempty [of sep xs] by (cases "split_on sep xs") auto
  with Cons show ?case by simp
qed

lemma split_on_no_sep: "sep \<notin> set s \<Longrightarrow> split_on sep s = [s]"
  by (induction s) auto

lemma is_digit_not_dot: "is_digit c \<Longrightarrow> c \<noteq> CHR ''.''"
  by (auto simp: is_digit_def)

lemma digits_value_nonneg:
  "0 \<le> a \<Longrightarrow> list_all is_digit s \<Longrightarrow>
   0 \<le> foldl (\<lambda>n c. 10 * n + (int (of_char c) - 48)) a s"
proof (induction s arbitrary: a)
  case Nil
  then show ?case by simp
next
  case (Cons c s)
  from Cons.prems have "0 \<le> 10 * a + (int (of_char c) - 48)"
    by (simp add: is_digit_def)
  with Cons show ?case by simp
qed

lemma trial_file_shape:
  assumes "trial_file_match file"
  shows "\<exists>x d ext. file = x @ CHR ''.'' # d @ CHR ''.'' # ext \<and> d \<noteq> [] \<and> list_all is_digit d \<and>
           CHR ''.'' \<notin> set ext \<and> newline \<notin> set x"
proof -
  define r1 where "r1 = (case rev file of [] \<Rightarrow> [] | c # cs \<Rightarrow> if c = newline then cs else rev file)"
  define e where "e = rev ''.pickle''"
  define r2 where "r2 = drop (length e) r1"
  from assms have m: "take (length e) r1 = e \<and> takeWhile is_digit r2 \<noteq> [] \<and>
      (case dropWhile is_digit r2 of [] \<Rightarrow> False | c # x \<Rightarrow> c = CHR ''.'' \<and> newline \<notin> set x)"
    unfolding trial_file_match_def Let_def r1_def r2_def e_def by blast
  then obtain x where x: "dropWhile is_digit r2 = CHR ''.'' # x" and nx: "newline \<notin> set x"
    by (auto split: list.splits)
  have "r1 = take (length e) r1 @ r2" by (simp add: r2_def)
  also have "r2 = takeWhile is_digit r2 @ dropWhile is_digit r2" by simp
  finally have r1: "r1 = e @ takeWhile is_digit r2 @ CHR ''.'' # x"
    using m x by simp
  have "\<exists>sfx. rev file = sfx @ r1 \<and> (sfx = [] \<or> sfx = [newline])"
    by (auto simp: r1_def split: list.splits)
  then obtain sfx where sfx: "rev file = sfx @ r1" and s2: "sfx = [] \<or> sfx = [newline]" by blast
  have "file = rev (rev file)" by simp
  also have "\<dots> = rev x @ CHR ''.'' # rev (takeWhile is_digit r2) @ CHR ''.'' # (''pickle'' @ rev sfx)"
    unfolding sfx r1 by (simp add: e_def)
  finally have f: "file = rev x @ CHR ''.'' # rev (takeWhile is_digit r2) @ CHR ''.'' # (''pickle'' @ rev sfx)" .
  have dig: "list_all is_digit (rev (takeWhile is_digit r2))"
    by (simp add: list_all_iff) (meson set_takeWhileD)
  have nd: "CHR ''.'' \<notin> set (''pickle'' @ rev sfx)"
    using s2 by (auto simp: newline_def)
  from f m dig nd nx show ?thesis
    by (intro exI [of _ "rev x"] exI [of _ "rev (takeWhile is_digit r2)"]
        exI [of _ "''pickle'' @ rev sfx"]) simp
qed

lemma file_trial_id_of_shape:
  assumes "d \<noteq> []" and "list_all is_digit d" and "CHR ''.'' \<notin> set ext"
  shows "file_trial_id (x @ CHR ''.'' # d @ CHR ''.'' # ext) = py_int d"
proof -
  have nd: "CHR ''.'' \<notin> set d"
    using assms(2) is_digit_not_dot by (auto simp: list_all_iff)
  have "split_on (CHR ''.'') (x @ CHR ''.'' # d @ CHR ''.'' # ext)
        = split_on (CHR ''.'') x @ [d, ext]"
    using nd assms(3) by (simp add: split_on_append split_on_no_sep)
  then show ?thesis
    by (simp add: file_trial_id_def Let_def nth_append)
qed

lemma trial_file_parses:
  assumes "trial_file_match file"
  shows "\<exists>n. file_trial_id file = Inr n \<and> 0 \<le> n"
proof -
  from trial_file_shape [OF assms] obtain x d ext where
    f: "file = x @ CHR ''.'' # d @ CHR ''.'' # ext" and d: "d \<noteq> []" "list_all is_digit d"
    and ext: "CHR ''.'' \<notin> set ext" by blast
  have "file_trial_id file = py_int d"
    unfolding f by (rule file_trial_id_of_shape [OF d ext])
  moreover have "py_int d = Inr (foldl (\<lambda>n c. 10 * n + (int (of_char c) - 48)) 0 d)"
    using d by (simp add: py_int_def)
  moreover have "0 \<le> foldl (\<lambda>n c. 10 * n + (int (of_char c) - 48)) 0 d"
    using d by (intro digits_value_nonneg) simp_all
  ultimately show ?thesis by simp
qed

lemma collect_trial_ids_total: "\<exists>ids. collect_trial_ids listing = Inr ids"
proof (induction listing)
  case Nil
  then show ?case by simp
next
  case (Cons a listing)
  obtain f isf where a: "a = (f, isf)" by (cases a)
  from Cons obtain ids where ids: "collect_trial_ids listing = Inr ids" by blast
  show ?case
  proof (cases "isf \<and> trial_file_match f")
    case True
    then obtain n where "file_trial_id f = Inr n" using trial_file_parses by blast
    with True ids a show ?thesis by simp
  next
    case False
    with ids a show ?thesis by auto
  qed
qed

lemma collect_trial_ids_set:
  "collect_trial_ids listing = Inr ids \<Longrightarrow>
   set ids = {n. \<exists>file. (file, True) \<in> set listing \<and> trial_file_match file \<and>
                  file_trial_id file = Inr n}"
proof (induction listing arbitrary: ids)
  case Nil
  then show ?case by simp
next
  case (Cons a listing)
  obtain f isf where a: "a = (f, isf)" by (cases a)
  show ?case
  proof (cases "isf \<and> trial_file_match f")
    case True
    with Cons.prems a obtain n ns where n: "file_trial_id f = Inr n"
      and ns: "collect_trial_ids listing = Inr ns" and ids: "ids = n # ns"
      by (auto split: sum.splits)
    from Cons.IH [OF ns] True n a show ?thesis
      unfolding ids by auto
  next
    case False
    with Cons.prems a have "collect_trial_ids listing = Inr ids" by auto
    from Cons.IH [OF this] False a show ?thesis by auto
  qed
qed

lemma app_init_fields:
  assumes "app_init e0 traj_file slowmo_rate listing = Inr s0"
  shows "layout_name s0 = ''forced_coordination'' \<and> trajectory s0 = [] \<and>
         collect_trajectory s0 \<and> score s0 = 0 \<and> curr_tick s0 = 0 \<and>
         fps s0 = 30 div slowmo_rate \<and> slowmo_rate \<noteq> 0 \<and> env s0 = e0 \<and>
         (\<exists>ids. collect_trial_ids listing = Inr ids \<and>
            trial_id s0 = (if ids = [] then 1 else Max (set ids) + 1))"
proof -
  from assms have nz: "slowmo_rate \<noteq> 0"
    by (auto simp: app_init_def)
  from assms nz have ct: "traj_file = None \<or> traj_file = Some []"
    by (simp add: app_init_def split: if_splits)
  from assms nz ct obtain ids where ids: "collect_trial_ids listing = Inr ids"
    by (cases "collect_trial_ids listing") (auto simp: app_init_def)
  from assms nz ct ids have
    "s0 = \<lparr>running = True, env = e0, layout_name = ''forced_coordination'',
           fps = 30 div slowmo_rate, score = 0, curr_tick = 0,
           joint_action = PList [PNone, PNone], collect_trajectory = True,
           trajectory = [],
           trial_id = (if ids = [] then 1 else Max (set ids) + 1),
           stdout = [], resets = 0\<rparr>"
    by (auto simp: app_init_def)
  with nz ids show ?thesis by simp
qed

lemma app_init_collect_returns:
  assumes "slowmo_rate \<noteq> 0"
  shows "\<exists>s0. app_init e0 None slowmo_rate listing = Inr s0"
proof -
  obtain ids where "collect_trial_ids listing = Inr ids"
    using collect_trial_ids_total by blast
  with assms show ?thesis by (simp add: app_init_def)
qed

lemma collection_execution_frame:
  assumes run: "collection_execution E a2i bs s0 = Some (Inr (s', name, df))"
      and t0: "trajectory s0 = []"
  shows "same_session s0 s' \<and> df = trajectory s' \<and> name = fst (save_trajectory s') \<and>
         list_all (\<lambda>t. t_trial_id t = 100) df"
proof -
  from run obtain s1 where l: "collection_loop E a2i bs (s0\<lparr>running := True\<rparr>) = Some (Inr s1)"
    and s': "s' = s1\<lparr>stdout := stdout s1 @ [(curr_tick s1, score s1)]\<rparr>"
    and n: "(name, df) = save_trajectory s1"
    by (auto simp: collection_execution_def split: option.splits sum.splits)
  from t0 have "list_all (\<lambda>t. t_trial_id t = 100) (trajectory (s0\<lparr>running := True\<rparr>))" by simp
  from collection_loop_frame [OF l this] s' n show ?thesis
    by (auto simp: same_session_def save_trajectory_def)
qed

lemma demo_init: "app_init 0 None 8 demo_listing = Inr demo_s0"
  by code_simp

lemma demo_run:
  "collection_execution demo_env overcooked_action_to_index demo_script demo_s0
     = Some (Inr (demo_s1, ''forced_coordination.8.pickle'', demo_trajectory))"
  by code_simp

subsection \<open>The name of the persisted trajectory (C4)\<close>

text \<open>
  C4, as amended. When a COLLECT session that \<open>App.__init__\<close> set up ends normally,
  its trajectory is written to the file \<open>forced_coordination.N.pickle\<close>, where \<open>N\<close> is
  one more than the largest trial identifier among all regular files of the data
  directory whose name matches \<open>^.*\.[0-9]+\.pickle$\<close>, whatever layout their name
  carries, and 1 when no file matches.
\<close>

theorem collect_persists_under_next_trial_id:
  assumes init: "app_init e0 traj_file slowmo_rate listing = Inr s0"
      and run: "collection_execution E a2i bs s0 = Some (Inr (s', name, df))"
  shows "name = ''forced_coordination'' @ ''.'' @ str_int (trial_id s0) @ ''.pickle'' \<and>
         df = trajectory s' \<and>
         trial_id s0 =
           (let ids = {n. \<exists>f. (f, True) \<in> set listing \<and> trial_file_match f \<and>
                              file_trial_id f = Inr n}
            in if ids = {} then 1 else Max ids + 1)"
proof -
  from app_init_fields [OF init] obtain ids where
    ln: "layout_name s0 = ''forced_coordination''" and t0: "trajectory s0 = []"
    and ids: "collect_trial_ids listing = Inr ids"
    and tid: "trial_id s0 = (if ids = [] then 1 else Max (set ids) + 1)"
    by blast
  from collection_execution_frame [OF run t0] ln
  have "name = ''forced_coordination'' @ ''.'' @ str_int (trial_id s0) @ ''.pickle''"
    and "df = trajectory s'"
    by (auto simp: same_session_def save_trajectory_def)
  moreover have "trial_id s0 =
           (let ids = {n. \<exists>f. (f, True) \<in> set listing \<and> trial_file_match f \<and>
                              file_trial_id f = Inr n}
            in if ids = {} then 1 else Max ids + 1)"
  proof -
    have e: "(ids = []) = (set ids = {})" by simp
    show ?thesis
      unfolding Let_def tid e collect_trial_ids_set [OF ids] ..
  qed
  ultimately show ?thesis by blast
qed

theorem collect_persists_under_next_trial_id_witness:
  "app_init 0 None 8 demo_listing = Inr demo_s0 \<and>
   collection_execution demo_env overcooked_action_to_index demo_script demo_s0
     = Some (Inr (demo_s1, ''forced_coordination.8.pickle'', demo_trajectory)) \<and>
   ''forced_coordination.8.pickle'' = ''forced_coordination'' @ ''.'' @ str_int (trial_id demo_s0) @ ''.pickle'' \<and>
   trial_id demo_s0 = 8"
  using collect_persists_under_next_trial_id [OF demo_init demo_run, THEN conjunct1]
    demo_init demo_run
  by (simp add: demo_s0_def)

text \<open>
  C4 as stated restricts the maximum to the trials of the session's own layout. In a
  directory that holds only \<open>asymmetric_advantages.7.pickle\<close> the session of the layout
  \<open>forced_coordination\<close> writes \<open>forced_coordination.8.pickle\<close>, where the claim gives
  \<open>forced_coordination.1.pickle\<close>.
\<close>

theorem trial_id_ignores_layout_counterexample:
  "(case app_init (0::nat) None 8 [(''asymmetric_advantages.7.pickle'', True)] of
        Inl e \<Rightarrow> None
      | Inr s0 \<Rightarrow> map_option (map_sum id (fst \<circ> snd))
          (collection_execution demo_env overcooked_action_to_index demo_script s0))
     = Some (Inr ''forced_coordination.8.pickle'') \<and>
   claimed_file_name ''forced_coordination'' [(''asymmetric_advantages.7.pickle'', True)]
     = ''forced_coordination.1.pickle''"
  by code_simp

subsection \<open>The trial identifier inside the records (C10)\<close>

text \<open>
  C10. Every transition that \<open>step_env\<close> appends carries the trial identifier 100,
  whatever \<open>self.trial_id\<close> is. So all records of the file that a COLLECT session
  writes carry 100, while the name of the file carries the computed identifier: when
  that identifier is not 100, no record agrees with the name of its file.
\<close>

theorem transitions_record_trial_id_100:
  assumes init: "app_init e0 traj_file slowmo_rate listing = Inr s0"
      and run: "collection_execution E a2i bs s0 = Some (Inr (s', name, df))"
  shows "(\<forall>s ja d s1. step_env E s ja = Inr (d, s1) \<and> collect_trajectory s \<longrightarrow>
            (\<exists>t. trajectory s1 = trajectory s @ [t] \<and> t_trial_id t = 100)) \<and>
         list_all (\<lambda>t. t_trial_id t = 100) df \<and>
         name = ''forced_coordination'' @ ''.'' @ str_int (trial_id s0) @ ''.pickle'' \<and>
         (trial_id s0 \<noteq> 100 \<longrightarrow> list_all (\<lambda>t. t_trial_id t \<noteq> trial_id s0) df)"
proof -
  from app_init_fields [OF init] have
    ln: "layout_name s0 = ''forced_coordination''" and t0: "trajectory s0 = []"
    by blast+
  from collection_execution_frame [OF run t0] ln
  have n: "name = ''forced_coordination'' @ ''.'' @ str_int (trial_id s0) @ ''.pickle''"
    and a: "list_all (\<lambda>t. t_trial_id t = 100) df"
    by (auto simp: same_session_def save_trajectory_def)
  have st: "\<forall>s ja d s1. step_env E s ja = Inr (d, s1) \<and> collect_trajectory s \<longrightarrow>
            (\<exists>t. trajectory s1 = trajectory s @ [t] \<and> t_trial_id t = 100)"
    using step_env_frame by blast
  from a have "trial_id s0 \<noteq> 100 \<longrightarrow> list_all (\<lambda>t. t_trial_id t \<noteq> trial_id s0) df"
    by (auto simp: list_all_iff)
  with st a n show ?thesis by blast
qed

theorem transitions_record_trial_id_100_witness:
  "app_init 0 None 8 demo_listing = Inr demo_s0 \<and>
   collection_execution demo_env overcooked_action_to_index demo_script demo_s0
     = Some (Inr (demo_s1, ''forced_coordination.8.pickle'', demo_trajectory)) \<and>
   trial_id demo_s0 = 8 \<and>
   list_all (\<lambda>t. t_trial_id t = 100) demo_trajectory \<and>
   list_all (\<lambda>t. t_trial_id t \<noteq> 8) demo_trajectory"
  using transitions_record_trial_id_100 [OF demo_init demo_run, THEN conjunct2]
    demo_init demo_run
  by (simp add: demo_s0_def)

lemma wait_for_action_ready:
  assumes "py_getitem (joint_action s) i = Inr v" and "v \<noteq> PNone"
  shows "wait_for_action a2i i bs s = Some (Inr (s, bs))"
  using assms by (cases bs) simp_all

lemma collection_loop_scripted_step:
  assumes "running s"
  shows "collection_loop E a2i ([KEYDOWN k0] # [KEYDOWN k1] # bs) s =
           (case on_loop E (s\<lparr>joint_action := joint_action_of a2i (k0, k1)\<rparr>) of
              Inl e \<Rightarrow> Some (Inl e)
            | Inr s3 \<Rightarrow> collection_loop E a2i bs s3)"
proof -
  let ?s1 = "s\<lparr>joint_action := PList [PInt (a2i (key_action k0)), PNone]\<rparr>"
  let ?s2 = "s\<lparr>joint_action := joint_action_of a2i (k0, k1)\<rparr>"
  have w0: "wait_for_action a2i 0 ([KEYDOWN k0] # [KEYDOWN k1] # bs)
              (s\<lparr>joint_action := PList [PNone, PNone]\<rparr>) = Some (Inr (?s1, [KEYDOWN k1] # bs))"
    by simp
  have w1: "wait_for_action a2i (Suc 0) ([KEYDOWN k1] # bs) ?s1 = Some (Inr (?s2, bs))"
    by (simp add: joint_action_of_def wait_for_action_ready)
  show ?thesis
    by (subst collection_loop.simps) (simp add: assms w0 w1 del: wait_for_action.simps)
qed

lemma on_loop_joint_action:
  assumes "fps s \<noteq> 0" and "collect_trajectory s"
    and "env_step E (env s) (joint_action_of a2i ks) = (e', sparse_r, done)"
  shows "on_loop E (s\<lparr>joint_action := joint_action_of a2i ks\<rparr>) =
     Inr (s\<lparr>env := e', score := score s + sum_list sparse_r,
            trajectory := trajectory s @
              [\<lparr>t_state = env s, t_joint_action = joint_action_of a2i ks,
                t_reward = sum_list sparse_r,
                t_time_left = max (of_int (1200 - curr_tick s) / of_int (fps s)) 0,
                t_score = score s + sum_list sparse_r,
                t_time_elapsed = of_int (curr_tick s) / of_int (fps s),
                t_cur_gameloop = curr_tick s,
                t_layout = terrain_mtx E e', t_layout_name = layout_name s,
                t_trial_id = 100\<rparr>],
            joint_action := PList [PNone, PNone],
            curr_tick := curr_tick s + 1,
            running := (if done then False else running s)\<rparr>)"
  using assms
  by (simp add: on_loop_def step_env_def joint_action_of_def Let_def)

lemma collection_loop_scripted:
  assumes "running s" and "fps s \<noteq> 0" and "collect_trajectory s"
    and "ticks_until_done E (env s) (map (joint_action_of a2i) ks) = Some n"
  shows "\<exists>s'. collection_loop E a2i (scripted ks) s = Some (Inr s') \<and>
           trajectory s' = trajectory s @
             logged E (layout_name s) (fps s) (env s) (score s) (curr_tick s)
               (map (joint_action_of a2i) ks) \<and>
           layout_name s' = layout_name s \<and> trial_id s' = trial_id s \<and>
           curr_tick s' = curr_tick s + int n"
  using assms
proof (induction ks arbitrary: s n)
  case Nil
  then show ?case by simp
next
  case (Cons k ks)
  obtain k0 k1 where k: "k = (k0, k1)" by (cases k)
  obtain e' sparse_r d where st: "env_step E (env s) (joint_action_of a2i k) = (e', sparse_r, d)"
    by (cases "env_step E (env s) (joint_action_of a2i k)")
  let ?s3 = "s\<lparr>env := e', score := score s + sum_list sparse_r,
            trajectory := trajectory s @
              [\<lparr>t_state = env s, t_joint_action = joint_action_of a2i k,
                t_reward = sum_list sparse_r,
                t_time_left = max (of_int (1200 - curr_tick s) / of_int (fps s)) 0,
                t_score = score s + sum_list sparse_r,
                t_time_elapsed = of_int (curr_tick s) / of_int (fps s),
                t_cur_gameloop = curr_tick s,
                t_layout = terrain_mtx E e', t_layout_name = layout_name s,
                t_trial_id = 100\<rparr>],
            joint_action := PList [PNone, PNone],
            curr_tick := curr_tick s + 1,
            running := (if d then False else running s)\<rparr>"
  have ol: "on_loop E (s\<lparr>joint_action := joint_action_of a2i k\<rparr>) = Inr ?s3"
    by (rule on_loop_joint_action [OF Cons.prems(2,3) st])
  have step: "collection_loop E a2i (scripted (k # ks)) s = collection_loop E a2i (scripted ks) ?s3"
    using collection_loop_scripted_step [OF Cons.prems(1), of E a2i k0 k1 "scripted ks"] ol
    by (simp add: scripted_def k)
  show ?case
  proof (cases d)
    case True
    with Cons.prems(4) st have n: "n = 1" by simp
    from True have "collection_loop E a2i (scripted ks) ?s3 = Some (Inr ?s3)"
      by (subst collection_loop.simps) simp
    with step True st n show ?thesis by simp
  next
    case False
    with Cons.prems(4) st obtain m where m: "ticks_until_done E e' (map (joint_action_of a2i) ks) = Some m"
      and n: "n = Suc m" by auto
    from False Cons.prems have r: "running ?s3" "fps ?s3 \<noteq> 0" "collect_trajectory ?s3" by simp_all
    from m have m': "ticks_until_done E (env ?s3) (map (joint_action_of a2i) ks) = Some m" by simp
    from Cons.IH [OF r m'] obtain s' where
      l: "collection_loop E a2i (scripted ks) ?s3 = Some (Inr s')"
      and t: "trajectory s' = trajectory ?s3 @
             logged E (layout_name ?s3) (fps ?s3) (env ?s3) (score ?s3) (curr_tick ?s3)
               (map (joint_action_of a2i) ks)"
      and f: "layout_name s' = layout_name ?s3" "trial_id s' = trial_id ?s3"
        "curr_tick s' = curr_tick ?s3 + int m"
      by blast
    from step l t f False st n show ?thesis by simp
  qed
qed

lemma logged_length:
  "ticks_until_done E e jas = Some n \<Longrightarrow> length (logged E L f e sc tk jas) = n"
proof (induction jas arbitrary: e sc tk n)
  case Nil
  then show ?case by simp
next
  case (Cons ja jas)
  obtain e' sp d where st: "env_step E e ja = (e', sp, d)" by (cases "env_step E e ja")
  show ?case
  proof (cases d)
    case True
    with Cons.prems st show ?thesis by simp
  next
    case False
    with Cons.prems st obtain m where "ticks_until_done E e' jas = Some m" "n = Suc m" by auto
    with Cons.IH [of e' m] st False show ?thesis by simp
  qed
qed

lemma logged_nth:
  "i < length (logged E L f e sc tk jas) \<Longrightarrow>
   t_cur_gameloop (logged E L f e sc tk jas ! i) = tk + int i \<and>
   t_time_left (logged E L f e sc tk jas ! i) = max (of_int (1200 - (tk + int i)) / of_int f) 0 \<and>
   t_reward (logged E L f e sc tk jas ! i) = env_rewards E e jas ! i \<and>
   t_score (logged E L f e sc tk jas ! i) =
     (if i = 0 then sc else t_score (logged E L f e sc tk jas ! (i - 1))) +
     t_reward (logged E L f e sc tk jas ! i) \<and>
   t_trial_id (logged E L f e sc tk jas ! i) = 100"
proof (induction jas arbitrary: e sc tk i)
  case Nil
  then show ?case by simp
next
  case (Cons ja jas)
  obtain e' sp d where st: "env_step E e ja = (e', sp, d)" by (cases "env_step E e ja")
  show ?case
  proof (cases i)
    case 0
    with st show ?thesis by simp
  next
    case (Suc j)
    with Cons.prems st have nd: "\<not> d" and j: "j < length (logged E L f e' (sc + sum_list sp) (tk + 1) jas)"
      by (auto split: if_splits)
    from Cons.IH [OF j] have
      a: "t_cur_gameloop (logged E L f e' (sc + sum_list sp) (tk + 1) jas ! j) = tk + 1 + int j"
      and b: "t_time_left (logged E L f e' (sc + sum_list sp) (tk + 1) jas ! j)
                = max (of_int (1200 - (tk + 1 + int j)) / of_int f) 0"
      and c: "t_reward (logged E L f e' (sc + sum_list sp) (tk + 1) jas ! j) = env_rewards E e' jas ! j"
      and d: "t_score (logged E L f e' (sc + sum_list sp) (tk + 1) jas ! j) =
                (if j = 0 then sc + sum_list sp
                 else t_score (logged E L f e' (sc + sum_list sp) (tk + 1) jas ! (j - 1))) +
                t_reward (logged E L f e' (sc + sum_list sp) (tk + 1) jas ! j)"
      and e: "t_trial_id (logged E L f e' (sc + sum_list sp) (tk + 1) jas ! j) = 100"
      by blast+
    have tk: "tk + int (Suc j) = tk + 1 + int j" by simp
    show ?thesis
    proof (cases j)
      case 0
      with Suc st nd a b c d e show ?thesis by (simp add: tk)
    next
      case (Suc j')
      with \<open>i = Suc j\<close> st nd a b c d e show ?thesis by (simp add: tk)
    qed
  qed
qed

lemma time_left_zero_iff:
  assumes "0 < f"
  shows "(max (of_int (1200 - k) / of_int f) (0::rat) = 0) = (1200 \<le> k)"
proof -
  define x :: rat where "x = of_int (1200 - k) / of_int f"
  have d: "(0::rat) < of_int f" using assms by simp
  show ?thesis
  proof (cases "1200 \<le> k")
    case True
    then have "(of_int (1200 - k) :: rat) \<le> 0" by simp
    with d have "x \<le> 0" unfolding x_def by (simp add: divide_le_0_iff)
    then have "max x 0 = 0" by (simp add: max_def)
    with True show ?thesis unfolding x_def by blast
  next
    case False
    then have n: "(0::rat) < of_int (1200 - k)" by simp
    have "0 < x" unfolding x_def by (rule divide_pos_pos [OF n d])
    then have "max x 0 \<noteq> 0" by (simp add: max_def)
    with False show ?thesis unfolding x_def by blast
  qed
qed

lemma fps_positive:
  assumes "1 \<le> slowmo_rate" and "slowmo_rate \<le> 30"
  shows "0 < (30::int) div slowmo_rate"
  using assms by (simp add: pos_imp_zdiv_pos_iff)

lemma demo_until_done:
  "ticks_until_done demo_env 0 (map (joint_action_of overcooked_action_to_index) demo_keys) = Some 2"
  by code_simp

lemma demo_scripted_run:
  "collection_execution demo_env overcooked_action_to_index (scripted demo_keys) demo_s0
     = Some (Inr (demo_s1, ''forced_coordination.8.pickle'', demo_trajectory))"
  by code_simp

subsection \<open>The trajectory of a COLLECT session (C9)\<close>

text \<open>
  C9, as amended. For a deterministic environment that signals \<open>done\<close> at its \<open>n\<close>-th step
  under a scripted sequence of joint actions, and a slow-motion rate between 1 and 30,
  the COLLECT session returns and persists a trajectory of exactly \<open>n\<close> transitions; the
  reward of transition \<open>i\<close> is the sum of the sparse rewards of step \<open>i\<close>, its score is the
  score of transition \<open>i - 1\<close> (0 for the first) plus that reward, and its time left is
  \<open>max ((1200 - i) / fps) 0\<close>, which is 0 exactly for the ticks \<open>i \<ge> 1200\<close>: it is positive
  at every earlier tick, so a session that ends before tick 1200 never records 0.
\<close>

theorem collect_session_trajectory:
  assumes init: "app_init e0 None slowmo_rate listing = Inr s0"
      and slow: "1 \<le> slowmo_rate \<and> slowmo_rate \<le> 30"
      and until_done: "ticks_until_done E e0 (map (joint_action_of a2i) ks) = Some n"
  shows "\<exists>s' name df.
           collection_execution E a2i (scripted ks) s0 = Some (Inr (s', name, df)) \<and>
           length df = n \<and>
           (\<forall>i<n. t_reward (df ! i) = env_rewards E e0 (map (joint_action_of a2i) ks) ! i \<and>
                  t_score (df ! i) =
                    (if i = 0 then 0 else t_score (df ! (i - 1))) + t_reward (df ! i) \<and>
                  t_time_left (df ! i) =
                    max (of_int (1200 - int i) / of_int (30 div slowmo_rate)) 0 \<and>
                  (t_time_left (df ! i) = 0) = (1200 \<le> i))"
proof -
  let ?jas = "map (joint_action_of a2i) ks"
  let ?f = "30 div slowmo_rate"
  from app_init_fields [OF init] have
    f0: "layout_name s0 = ''forced_coordination''" "trajectory s0 = []" "collect_trajectory s0"
      "score s0 = 0" "curr_tick s0 = 0" "fps s0 = ?f" "env s0 = e0"
    by blast+
  from slow have fpos: "0 < ?f" by (simp add: fps_positive)
  let ?s = "s0\<lparr>running := True\<rparr>"
  have pre: "running ?s" "fps ?s \<noteq> 0" "collect_trajectory ?s"
    using f0 fpos by simp_all
  have ud: "ticks_until_done E (env ?s) ?jas = Some n"
    using until_done f0 by simp
  from collection_loop_scripted [OF pre ud] obtain s1 where
    l: "collection_loop E a2i (scripted ks) ?s = Some (Inr s1)"
    and t: "trajectory s1 = logged E ''forced_coordination'' ?f e0 0 0 ?jas"
    using f0 by auto
  let ?df = "logged E ''forced_coordination'' ?f e0 0 0 ?jas"
  have len: "length ?df = n"
    by (rule logged_length [OF until_done])
  have run: "collection_execution E a2i (scripted ks) s0 =
      Some (Inr (s1\<lparr>stdout := stdout s1 @ [(curr_tick s1, score s1)]\<rparr>,
                 fst (save_trajectory s1), ?df))"
    using l t by (simp add: collection_execution_def save_trajectory_def)
  have nth: "\<forall>i<n. t_reward (?df ! i) = env_rewards E e0 ?jas ! i \<and>
                  t_score (?df ! i) =
                    (if i = 0 then 0 else t_score (?df ! (i - 1))) + t_reward (?df ! i) \<and>
                  t_time_left (?df ! i) = max (of_int (1200 - int i) / of_int ?f) 0 \<and>
                  (t_time_left (?df ! i) = 0) = (1200 \<le> i)"
  proof (intro allI impI)
    fix i assume "i < n"
    with len have i: "i < length ?df" by simp
    from logged_nth [OF i] have
      a: "t_time_left (?df ! i) = max (of_int (1200 - (0 + int i)) / of_int ?f) 0"
      and b: "t_reward (?df ! i) = env_rewards E e0 ?jas ! i"
      and c: "t_score (?df ! i) =
                (if i = 0 then 0 else t_score (?df ! (i - 1))) + t_reward (?df ! i)"
      by blast+
    have z: "(max (of_int (1200 - int i) / of_int ?f) (0::rat) = 0) = (1200 \<le> int i)"
      by (rule time_left_zero_iff [OF fpos])
    from a have a': "t_time_left (?df ! i) = max (of_int (1200 - int i) / of_int ?f) 0"
      by simp
    have "(t_time_left (?df ! i) = 0) = (1200 \<le> i)"
      unfolding a' z by simp
    with a' b c show "t_reward (?df ! i) = env_rewards E e0 ?jas ! i \<and>
                  t_score (?df ! i) =
                    (if i = 0 then 0 else t_score (?df ! (i - 1))) + t_reward (?df ! i) \<and>
                  t_time_left (?df ! i) = max (of_int (1200 - int i) / of_int ?f) 0 \<and>
                  (t_time_left (?df ! i) = 0) = (1200 \<le> i)"
      by blast
  qed
  from run len nth show ?thesis by blast
qed

theorem collect_session_trajectory_witness:
  "app_init 0 None 8 demo_listing = Inr demo_s0 \<and>
   ((1::int) \<le> 8 \<and> (8::int) \<le> 30) \<and>
   ticks_until_done demo_env 0 (map (joint_action_of overcooked_action_to_index) demo_keys)
     = Some 2 \<and>
   (\<exists>s' name df.
      collection_execution demo_env overcooked_action_to_index (scripted demo_keys) demo_s0
        = Some (Inr (s', name, df)) \<and>
      length df = 2 \<and>
      t_score (df ! 1) = t_score (df ! 0) + t_reward (df ! 1) \<and>
      t_time_left (df ! 1) \<noteq> 0)"
proof -
  have s: "(1::int) \<le> 8 \<and> (8::int) \<le> 30" by simp
  from collect_session_trajectory [OF demo_init s demo_until_done] obtain s' name df where
    r: "collection_execution demo_env overcooked_action_to_index (scripted demo_keys) demo_s0
        = Some (Inr (s', name, df))"
    and l: "length df = 2"
    and a: "\<forall>i<2. t_score (df ! i) =
                    (if i = 0 then 0 else t_score (df ! (i - 1))) + t_reward (df ! i) \<and>
                  (t_time_left (df ! i) = 0) = (1200 \<le> i)"
    by blast
  from a have "t_score (df ! 1) = t_score (df ! 0) + t_reward (df ! 1) \<and>
      t_time_left (df ! 1) \<noteq> 0"
    by (auto dest: spec [of _ 1])
  with r l demo_init demo_until_done s show ?thesis by blast
qed

text \<open>
  C9 as stated has the time left reach 0 in the trajectory. The example session ends
  after two ticks: its records hold the time left 400 and 1199/3, never 0.
\<close>

theorem time_left_never_zero_counterexample:
  "ticks_until_done demo_env 0 (map (joint_action_of overcooked_action_to_index) demo_keys)
     = Some 2 \<and>
   collection_execution demo_env overcooked_action_to_index (scripted demo_keys) demo_s0
     = Some (Inr (demo_s1, ''forced_coordination.8.pickle'', demo_trajectory)) \<and>
   map t_time_left demo_trajectory = [400, 1199 / 3] \<and>
   \<not> (\<exists>i < length demo_trajectory. t_time_left (demo_trajectory ! i) = 0)"
proof -
  have a: "map t_time_left demo_trajectory = [400, 1199 / 3]"
    by (simp add: demo_trajectory_def)
  have "\<not> (\<exists>i < length demo_trajectory. t_time_left (demo_trajectory ! i) = 0)"
  proof
    assume "\<exists>i < length demo_trajectory. t_time_left (demo_trajectory ! i) = 0"
    then obtain i where i: "i < length demo_trajectory"
      and z: "t_time_left (demo_trajectory ! i) = 0" by blast
    from i have "map t_time_left demo_trajectory ! i = 0"
      using z by simp
    with a i have "[400, 1199 / 3 :: rat] ! i = 0" by simp
    moreover from i have "i = 0 \<or> i = 1" by (auto simp: demo_trajectory_def)
    ultimately show False by auto
  qed
  with a demo_until_done demo_scripted_run show ?thesis by blast
qed

section \<open>Properties of \<open>str_to_actions\<close> (C5)\<close>

lemma py_getitem_setitem:
  assumes "py_setitem ja i x = Inr r"
  shows "py_getitem r i = Inr x \<and> (\<forall>j. j \<noteq> i \<longrightarrow> py_getitem r j = py_getitem ja j)"
  using assms by (cases ja) (auto split: if_splits)

lemma normalise_at_Inr:
  assumes "normalise_at L ja i = Inr r"
  shows "\<exists>x. py_getitem ja i = Inr x \<and> py_getitem r i = Inr (normalised x) \<and>
             in_ALL_ACTIONS L (normalised x) \<and>
             (\<forall>j. j \<noteq> i \<longrightarrow> py_getitem r j = py_getitem ja j)"
proof -
  from assms obtain x where x: "py_getitem ja i = Inr x"
    by (auto simp: normalise_at_def split: sum.splits)
  show ?thesis
  proof (cases x)
    case (PList xs)
    with assms x obtain ja1 where s: "py_setitem ja i (PTuple xs) = Inr ja1"
      by (auto simp: normalise_at_def split: sum.splits)
    from py_getitem_setitem [OF s] have g: "py_getitem ja1 i = Inr (PTuple xs)"
      and o: "\<forall>j. j \<noteq> i \<longrightarrow> py_getitem ja1 j = py_getitem ja j" by blast+
    from assms x PList s g have "r = ja1" and "in_ALL_ACTIONS L (PTuple xs)"
      by (auto simp: normalise_at_def split: sum.splits if_splits)
    with x PList g o show ?thesis by (simp add: normalised_def)
  next
    case (PStr s)
    with assms x obtain ja2 where st: "py_setitem ja i (PStr (py_lower s)) = Inr ja2"
      by (auto simp: normalise_at_def split: sum.splits)
    from py_getitem_setitem [OF st] have g: "py_getitem ja2 i = Inr (PStr (py_lower s))"
      and o: "\<forall>j. j \<noteq> i \<longrightarrow> py_getitem ja2 j = py_getitem ja j" by blast+
    from assms x PStr st g have "r = ja2" and "in_ALL_ACTIONS L (PStr (py_lower s))"
      by (auto simp: normalise_at_def split: sum.splits if_splits)
    with x PStr g o show ?thesis by (simp add: normalised_def)
  next
    case PNone
    with assms x show ?thesis
      by (auto simp: normalise_at_def normalised_def split: sum.splits if_splits)
  next
    case (PBool b)
    with assms x show ?thesis
      by (auto simp: normalise_at_def normalised_def split: sum.splits if_splits)
  next
    case (PInt n)
    with assms x show ?thesis
      by (auto simp: normalise_at_def normalised_def split: sum.splits if_splits)
  next
    case (PFloat m e)
    with assms x show ?thesis
      by (auto simp: normalise_at_def normalised_def split: sum.splits if_splits)
  next
    case (PTuple xs)
    with assms x show ?thesis
      by (auto simp: normalise_at_def normalised_def split: sum.splits if_splits)
  next
    case (PDict kvs)
    with assms x show ?thesis
      by (auto simp: normalise_at_def normalised_def split: sum.splits if_splits)
  qed
qed

lemma str_to_actions_Inr:
  assumes "str_to_actions L (PStr s) = Inr r"
  shows "\<exists>v v0 v1.
           (json_loads L s = Some v \<or> json_loads L s = None \<and> py_eval L s = Inr v) \<and>
           py_getitem v 0 = Inr v0 \<and> py_getitem v 1 = Inr v1 \<and>
           py_getitem r 0 = Inr (normalised v0) \<and> py_getitem r 1 = Inr (normalised v1) \<and>
           in_ALL_ACTIONS L (normalised v0) \<and> in_ALL_ACTIONS L (normalised v1)"
proof -
  from assms obtain v r0 where
    p: "json_loads L s = Some v \<or> json_loads L s = None \<and> py_eval L s = Inr v"
    and n0: "normalise_at L v 0 = Inr r0" and n1: "normalise_at L r0 1 = Inr r"
    by (auto simp: str_to_actions_def split: option.splits sum.splits)
  from normalise_at_Inr [OF n0] obtain v0 where
    a: "py_getitem v 0 = Inr v0" "py_getitem r0 0 = Inr (normalised v0)"
       "in_ALL_ACTIONS L (normalised v0)" "py_getitem r0 1 = py_getitem v 1"
    by auto
  from normalise_at_Inr [OF n1] obtain v1 where
    b: "py_getitem r0 1 = Inr v1" "py_getitem r 1 = Inr (normalised v1)"
       "in_ALL_ACTIONS L (normalised v1)" "py_getitem r 0 = py_getitem r0 0"
    by auto
  from p a b show ?thesis by auto
qed











section \<open>Properties of the replay (C3)\<close>

lemma on_loop_pair:
  assumes "fps s \<noteq> 0" and "a \<noteq> PNone" and "b \<noteq> PNone"
  shows "\<exists>s'. on_loop E (s\<lparr>joint_action := PList [a, b]\<rparr>) = Inr s' \<and>
              resets s' = resets s \<and> curr_tick s' = curr_tick s + 1 \<and>
              fps s' = fps s \<and> stdout s' = stdout s"
  using assms
  by (auto simp: on_loop_def step_env_def Let_def split: prod.splits)

lemma replay_rows_play:
  assumes "r_trial_id r = trial" and "\<not> env_is_done E (env s)" and "fps s \<noteq> 0"
    and "\<exists>a b. str_to_actions L (r_joint_action r) = Inr (PList [a, b]) \<and>
               a \<noteq> PNone \<and> b \<noteq> PNone"
  shows "\<exists>s'. (\<forall>rows. replay_rows L E (r # rows) trial s = replay_rows L E rows trial s') \<and>
              resets s' = resets s \<and> curr_tick s' = curr_tick s + 1 \<and>
              fps s' = fps s \<and> stdout s' = stdout s"
proof -
  from assms(4) obtain a b where p: "str_to_actions L (r_joint_action r) = Inr (PList [a, b])"
    and ab: "a \<noteq> PNone" "b \<noteq> PNone" by blast
  from on_loop_pair [OF assms(3) ab] obtain s' where
    ol: "on_loop E (s\<lparr>joint_action := PList [a, b]\<rparr>) = Inr s'"
    and f: "resets s' = resets s" "curr_tick s' = curr_tick s + 1" "fps s' = fps s"
      "stdout s' = stdout s"
    by blast
  from assms(1,2) p ol
  have "\<forall>rows. replay_rows L E (r # rows) trial s = replay_rows L E rows trial s'"
    by simp
  with f show ?thesis by blast
qed

text \<open>
  C3. Replay of a log whose records carry the trial identifiers 1, 1, 1, 2, 2, where
  every cell parses to a pair of actions, the frame rate is not 0, the environment is
  not done before any of the three records of trial 1, and a freshly reset environment is
  not done: after the three records of trial 1 nothing has been reset and the tick counter
  has advanced by 3; processing the fourth record, the first with identifier 2, resets
  the environment, the score and the tick counter to 0 and moves the cursor to 2; the
  fifth record is replayed as a step. At the end there has been exactly one reset, and
  one summary line, holding the ticks and the score of trial 1.
\<close>

theorem replay_resets_once_at_trial_boundary:
  assumes ids: "map r_trial_id rows = [1, 1, 1, 2, 2]"
      and cells: "\<forall>r \<in> set rows. \<exists>a b.
                    str_to_actions L (r_joint_action r) = Inr (PList [a, b]) \<and>
                    a \<noteq> PNone \<and> b \<noteq> PNone"
      and fps: "fps s0 \<noteq> 0"
      and not_done: "\<forall>k trial s. k < 3 \<and>
                       replay_rows L E (take k rows) 1 (s0\<lparr>running := True\<rparr>) = Inr (trial, s)
                       \<longrightarrow> \<not> env_is_done E (env s)"
      and fresh: "\<forall>e. \<not> env_is_done E (env_reset E e)"
  shows "\<exists>s3 s4 s5.
           replay_rows L E (take 3 rows) 1 (s0\<lparr>running := True\<rparr>) = Inr (1, s3) \<and>
           resets s3 = resets s0 \<and> curr_tick s3 = curr_tick s0 + 3 \<and>
           replay_rows L E (take 4 rows) 1 (s0\<lparr>running := True\<rparr>) = Inr (2, s4) \<and>
           resets s4 = resets s0 + 1 \<and> curr_tick s4 = 0 \<and> score s4 = 0 \<and>
           replay_execution L E rows s0 = Inr s5 \<and>
           resets s5 = resets s0 + 1 \<and> curr_tick s5 = 1 \<and>
           stdout s5 = stdout s0 @ [(curr_tick s3, score s3)]"
proof -
  let ?s = "s0\<lparr>running := True\<rparr>"
  from ids obtain r0 r1 r2 r3 r4 where rows: "rows = [r0, r1, r2, r3, r4]"
    and t: "r_trial_id r0 = 1" "r_trial_id r1 = 1" "r_trial_id r2 = 1"
           "r_trial_id r3 = 2" "r_trial_id r4 = 2"
    by (auto simp: map_eq_Cons_conv)
  from cells rows have c:
    "\<exists>a b. str_to_actions L (r_joint_action r0) = Inr (PList [a, b]) \<and> a \<noteq> PNone \<and> b \<noteq> PNone"
    "\<exists>a b. str_to_actions L (r_joint_action r1) = Inr (PList [a, b]) \<and> a \<noteq> PNone \<and> b \<noteq> PNone"
    "\<exists>a b. str_to_actions L (r_joint_action r2) = Inr (PList [a, b]) \<and> a \<noteq> PNone \<and> b \<noteq> PNone"
    "\<exists>a b. str_to_actions L (r_joint_action r4) = Inr (PList [a, b]) \<and> a \<noteq> PNone \<and> b \<noteq> PNone"
    by simp_all
  have tk: "take 0 rows = []" "take 1 rows = [r0]" "take 2 rows = [r0, r1]"
    "take 3 rows = [r0, r1, r2]" "take 4 rows = [r0, r1, r2, r3]"
    by (simp_all add: rows)
  have nd: "\<And>k trial s. k < 3 \<Longrightarrow> replay_rows L E (take k rows) 1 ?s = Inr (trial, s)
              \<Longrightarrow> \<not> env_is_done E (env s)"
    using not_done by blast
  have f0: "fps ?s \<noteq> 0" using fps by simp
  \<comment> \<open>the three records of trial 1\<close>
  have "replay_rows L E (take 0 rows) 1 ?s = Inr (1, ?s)" unfolding tk by simp
  then have d0: "\<not> env_is_done E (env ?s)" by (rule nd [rotated]) simp
  from replay_rows_play [OF t(1) d0 f0 c(1)] obtain s1 where
    p1: "\<forall>rs. replay_rows L E (r0 # rs) 1 ?s = replay_rows L E rs 1 s1"
    and q1: "resets s1 = resets ?s" "curr_tick s1 = curr_tick ?s + 1" "fps s1 = fps ?s"
      "stdout s1 = stdout ?s"
    by blast
  have "replay_rows L E (take 1 rows) 1 ?s = Inr (1, s1)" unfolding tk by (simp only: p1 replay_rows.simps(1))
  then have d1: "\<not> env_is_done E (env s1)" by (rule nd [rotated]) simp
  have f1: "fps s1 \<noteq> 0" using q1 f0 by simp
  from replay_rows_play [OF t(2) d1 f1 c(2)] obtain s2 where
    p2: "\<forall>rs. replay_rows L E (r1 # rs) 1 s1 = replay_rows L E rs 1 s2"
    and q2: "resets s2 = resets s1" "curr_tick s2 = curr_tick s1 + 1" "fps s2 = fps s1"
      "stdout s2 = stdout s1"
    by blast
  have "replay_rows L E (take 2 rows) 1 ?s = Inr (1, s2)" unfolding tk by (simp only: p1 p2 replay_rows.simps(1))
  then have d2: "\<not> env_is_done E (env s2)" by (rule nd [rotated]) simp
  have f2: "fps s2 \<noteq> 0" using q2 f1 by simp
  from replay_rows_play [OF t(3) d2 f2 c(3)] obtain s3 where
    p3: "\<forall>rs. replay_rows L E (r2 # rs) 1 s2 = replay_rows L E rs 1 s3"
    and q3: "resets s3 = resets s2" "curr_tick s3 = curr_tick s2 + 1" "fps s3 = fps s2"
      "stdout s3 = stdout s2"
    by blast
  have a3: "replay_rows L E (take 3 rows) 1 ?s = Inr (1, s3)" unfolding tk by (simp only: p1 p2 p3 replay_rows.simps(1))
  have b3: "resets s3 = resets s0" "curr_tick s3 = curr_tick s0 + 3" "stdout s3 = stdout s0"
    using q1 q2 q3 by simp_all
  \<comment> \<open>the first record of trial 2: the boundary\<close>
  let ?s4 = "s3\<lparr>env := env_reset E (env s3),
                stdout := stdout s3 @ [(curr_tick s3, score s3)],
                resets := resets s3 + 1, score := 0, curr_tick := 0\<rparr>"
  have p4: "\<forall>rs. replay_rows L E (r3 # rs) 1 s3 = replay_rows L E rs 2 ?s4"
    using t(4) by simp
  have a4: "replay_rows L E (take 4 rows) 1 ?s = Inr (2, ?s4)" unfolding tk by (simp only: p1 p2 p3 p4 replay_rows.simps(1))
  have b4: "resets ?s4 = resets s0 + 1" "curr_tick ?s4 = 0" "score ?s4 = 0"
    using b3 by simp_all
  \<comment> \<open>the second record of trial 2\<close>
  have d4: "\<not> env_is_done E (env ?s4)" using fresh by simp
  have f4: "fps ?s4 \<noteq> 0" using q3 f2 by simp
  from replay_rows_play [OF t(5) d4 f4 c(4)] obtain s5 where
    p5: "\<forall>rs. replay_rows L E (r4 # rs) 2 ?s4 = replay_rows L E rs 2 s5"
    and q5: "resets s5 = resets ?s4" "curr_tick s5 = curr_tick ?s4 + 1" "stdout s5 = stdout ?s4"
    by blast
  have "replay_rows L E rows 1 ?s = Inr (2, s5)"
    unfolding rows by (simp only: p1 p2 p3 p4 p5 replay_rows.simps(1))
  then have a5: "replay_execution L E rows s0 = Inr s5"
    using fps t(1) by (simp add: replay_execution_def rows)
  have b5: "resets s5 = resets s0 + 1" "curr_tick s5 = 1"
    "stdout s5 = stdout s0 @ [(curr_tick s3, score s3)]"
    using q5 b3 by simp_all
  from a3 b3 a4 b4 a5 b5 show ?thesis by blast
qed

lemma demo_replay_cells:
  "\<forall>r \<in> set demo_rows. \<exists>a b.
      str_to_actions demo_lib (r_joint_action r) = Inr (PList [a, b]) \<and>
      a \<noteq> PNone \<and> b \<noteq> PNone"
proof -
  have a: "str_to_actions demo_lib (PStr cell_json_upper)
     = Inr (PList [PTuple [PInt 0, PInt 0], PStr ''interact''])" by code_simp
  have b: "str_to_actions demo_lib (PStr cell_json_pair)
     = Inr (PList [PTuple [PInt 1, PInt 0], PStr ''interact''])" by code_simp
  show ?thesis by (simp add: demo_rows_def a b)
qed

lemma demo_replay_not_done:
  "\<forall>k trial s. k < 3 \<and>
      replay_rows demo_lib replay_env (take k demo_rows) 1 (replay_s0\<lparr>running := True\<rparr>)
        = Inr (trial, s)
      \<longrightarrow> \<not> env_is_done replay_env (env s)"
proof (intro allI impI)
  fix k trial s
  assume h: "k < 3 \<and>
      replay_rows demo_lib replay_env (take k demo_rows) 1 (replay_s0\<lparr>running := True\<rparr>)
        = Inr (trial, s)"
  have r0: "map_sum id (env \<circ> snd)
      (replay_rows demo_lib replay_env (take 0 demo_rows) 1 (replay_s0\<lparr>running := True\<rparr>)) = Inr 0"
    by code_simp
  have r1: "map_sum id (env \<circ> snd)
      (replay_rows demo_lib replay_env (take 1 demo_rows) 1 (replay_s0\<lparr>running := True\<rparr>)) = Inr 1"
    by code_simp
  have r2: "map_sum id (env \<circ> snd)
      (replay_rows demo_lib replay_env (take 2 demo_rows) 1 (replay_s0\<lparr>running := True\<rparr>)) = Inr 2"
    by code_simp
  from h have "k = 0 \<or> k = 1 \<or> k = 2" by auto
  with h r0 r1 r2 have "env s < 3" by auto
  then show "\<not> env_is_done replay_env (env s)" by (simp add: replay_env_def)
qed

theorem replay_resets_once_at_trial_boundary_witness:
  "map r_trial_id demo_rows = [1, 1, 1, 2, 2] \<and>
   fps replay_s0 \<noteq> 0 \<and>
   (\<exists>s3 s4 s5.
      replay_rows demo_lib replay_env (take 3 demo_rows) 1 (replay_s0\<lparr>running := True\<rparr>)
        = Inr (1, s3) \<and>
      resets s3 = 0 \<and> curr_tick s3 = 3 \<and>
      replay_rows demo_lib replay_env (take 4 demo_rows) 1 (replay_s0\<lparr>running := True\<rparr>)
        = Inr (2, s4) \<and>
      resets s4 = 1 \<and> curr_tick s4 = 0 \<and> score s4 = 0 \<and>
      replay_execution demo_lib replay_env demo_rows replay_s0 = Inr s5 \<and>
      resets s5 = 1 \<and> curr_tick s5 = 1)"
proof -
  have ids: "map r_trial_id demo_rows = [1, 1, 1, 2, 2]" by (simp add: demo_rows_def)
  have f: "fps replay_s0 \<noteq> 0" by (simp add: replay_s0_def)
  have fresh: "\<forall>e. \<not> env_is_done replay_env (env_reset replay_env e)"
    by (simp add: replay_env_def)
  have z: "resets replay_s0 = 0" "curr_tick replay_s0 = 0" by (simp_all add: replay_s0_def)
  from replay_resets_once_at_trial_boundary
    [OF ids demo_replay_cells f demo_replay_not_done fresh] z ids f
  show ?thesis by auto
qed

section \<open>Properties of the agents\<close>

subsection \<open>\<open>action\<close> and the player index (C6)\<close>



subsection \<open>Hidden state of the recurrent wrapper (C7)\<close>

text \<open>
  C7 does not hold of \<open>SB3LSTMWrapper.predict\<close>. A call without \<open>episode_start\<close>, and a
  call with \<open>episode_start = [False]\<close>, hand \<open>[True]\<close> to the wrapped agent, as a call with
  \<open>episode_start = [True]\<close> does; and the state stored in \<open>self.lstm_states\<close> is never
  read. With the example agent, two calls in a row both return the action 0 and the state
  1, also when the caller passes the returned state back with \<open>episode_start = [False]\<close>,
  where the wrapped agent itself would continue with the action 1.
\<close>

theorem lstm_wrapper_always_asserts_episode_start:
  "SB3LSTMWrapper_predict sb3_predict self obs state None deterministic
     = SB3LSTMWrapper_predict sb3_predict self obs state (Some [True]) deterministic \<and>
   SB3LSTMWrapper_predict sb3_predict self obs state (Some [False]) deterministic
     = SB3LSTMWrapper_predict sb3_predict self obs state (Some [True]) deterministic \<and>
   map_sum id fst
     (SB3LSTMWrapper_predict sb3_predict (self\<lparr>lstm_states := carried\<rparr>) obs state
        episode_start deterministic)
     = map_sum id fst
         (SB3LSTMWrapper_predict sb3_predict self obs state episode_start deterministic) \<and>
   map_sum id fst (SB3LSTMWrapper_predict counting_lstm demo_lstm_wrapper 0 None None True)
     = Inr (0, Some 1) \<and>
   map_sum id fst
     (SB3LSTMWrapper_predict counting_lstm (demo_lstm_wrapper\<lparr>lstm_states := Some 1\<rparr>) 0
        None None True)
     = Inr (0, Some 1) \<and>
   map_sum id fst
     (SB3LSTMWrapper_predict counting_lstm (demo_lstm_wrapper\<lparr>lstm_states := Some 1\<rparr>) 0
        (Some 1) (Some [False]) True)
     = Inr (0, Some 1) \<and>
   counting_lstm () 0 (Some 1) (Some [False]) True = (1, Some 2)"
proof -
  have a: "SB3LSTMWrapper_predict sb3_predict self obs state None deterministic
     = SB3LSTMWrapper_predict sb3_predict self obs state (Some [True]) deterministic"
    by (simp add: SB3LSTMWrapper_predict_def array_truth_def)
  have b: "SB3LSTMWrapper_predict sb3_predict self obs state (Some [False]) deterministic
     = SB3LSTMWrapper_predict sb3_predict self obs state (Some [True]) deterministic"
    by (simp add: SB3LSTMWrapper_predict_def array_truth_def)
  have c: "map_sum id fst
     (SB3LSTMWrapper_predict sb3_predict (self\<lparr>lstm_states := carried\<rparr>) obs state
        episode_start deterministic)
     = map_sum id fst
         (SB3LSTMWrapper_predict sb3_predict self obs state episode_start deterministic)"
    by (simp add: SB3LSTMWrapper_predict_def Let_def split: sum.splits prod.splits)
  have d: "map_sum id fst (SB3LSTMWrapper_predict counting_lstm demo_lstm_wrapper 0 None None True)
     = Inr (0, Some 1)"
    by (simp add: SB3LSTMWrapper_predict_def array_truth_def counting_lstm_def
        demo_lstm_wrapper_def)
  have e: "map_sum id fst
     (SB3LSTMWrapper_predict counting_lstm (demo_lstm_wrapper\<lparr>lstm_states := Some 1\<rparr>) 0
        None None True)
     = Inr (0, Some 1)"
    by (simp add: SB3LSTMWrapper_predict_def array_truth_def counting_lstm_def
        demo_lstm_wrapper_def)
  have f: "map_sum id fst
     (SB3LSTMWrapper_predict counting_lstm (demo_lstm_wrapper\<lparr>lstm_states := Some 1\<rparr>) 0
        (Some 1) (Some [False]) True)
     = Inr (0, Some 1)"
    by (simp add: SB3LSTMWrapper_predict_def array_truth_def counting_lstm_def
        demo_lstm_wrapper_def)
  have g: "counting_lstm () 0 (Some 1) (Some [False]) True = (1, Some 2)"
    by (simp add: counting_lstm_def)
  from a b c d e f g show ?thesis by blast
qed

subsection \<open>The trainer never writes its manifest (C2)\<close>

lemma save_agents_loop_first:
  assumes "map_of save_dict ''agent_paths'' = None"
  shows "save_agents_loop P agent_path i (a # rest) save_dict fs =
           (OAIAgent_save P a (agent_path @ ''/agent_'' @ str_int (int i)) fs, Inl KeyError)"
  using assms by (simp add: Let_def)

lemma manifests_OAIAgent_save: "manifests (OAIAgent_save P a p fs) = manifests fs"
  by (simp add: manifests_def OAIAgent_save_def th_save_def is_manifest_def Let_def)

lemma save_agents_cases:
  fixes self :: "('st, 'obs, 'w) oai_trainer"
  shows "save_agents P self path tag fs = (fs, Inl AttributeError) \<or>
   save_agents P self path tag fs = (fs, Inl TypeError) \<or>
   save_agents P self path tag fs = (fs, Inl IndexError) \<or>
   (\<exists>p. save_agents P self path tag fs = (OAIAgent_save P (hd (agents self)) p fs, Inl KeyError))"
proof (cases "default_path self path")
  case (Inl e)
  then have "e = AttributeError \<or> e = TypeError"
    by (auto simp: default_path_def attr_str_def split: option.splits pyval.splits sum.splits)
  with Inl show ?thesis by (auto simp: save_agents_def)
next
  case p: (Inr path')
  show ?thesis
  proof (cases "default_tag self tag")
    case (Inl e)
    then have "e = AttributeError \<or> e = TypeError"
      by (auto simp: default_tag_def attr_str_def split: option.splits pyval.splits list.splits)
    with p Inl show ?thesis by (auto simp: save_agents_def)
  next
    case t: (Inr tag')
    show ?thesis
    proof (cases "agents self")
      case Nil
      with p t show ?thesis by (simp add: save_agents_def)
    next
      case (Cons a0 rest)
      have m: "map_of [(''model_type'', MType (a_class a0)), (''agent_fns'', MList [])]
                 ''agent_paths'' = None" by simp
      from p t Cons
      have "save_agents P self path tag fs =
              (OAIAgent_save P (hd (agents self))
                 ((path' @ ''/'' @ tag' @ ''/agents_dir'') @ ''/agent_'' @ str_int (int 0)) fs,
               Inl KeyError)"
        by (simp add: save_agents_def Let_def save_agents_loop_first [OF m])
      then show ?thesis by blast
    qed
  qed
qed
text \<open>
  C2. \<open>save_agents\<close> never succeeds. Whatever the trainer, the arguments and the store, it
  raises (AttributeError or TypeError from the defaults, IndexError for an empty list of
  agents, and otherwise KeyError at \<open>save_dict['agent_paths']\<close> in the first round of the
  loop, after the first agent was saved); the trainer files of the store are those it
  found, so no manifest is written; and \<open>load_agents\<close> on what \<open>save_agents\<close> left in an
  empty store raises.
\<close>

theorem save_agents_never_writes_manifest:
  fixes self :: "('st, 'obs, 'w) oai_trainer"
  shows "(\<exists>e. snd (save_agents P self path tag fs) = Inl e) \<and>
   manifests (fst (save_agents P self path tag fs)) = manifests fs \<and>
   (\<exists>e. load_agents P self path tag (fst (save_agents P self path tag [])) = Inl e)"
proof -
  note c = save_agents_cases [of P self path tag fs]
  have e: "\<exists>e. snd (save_agents P self path tag fs) = Inl e"
    using c by (elim disjE exE) simp_all
  have m: "manifests (fst (save_agents P self path tag fs)) = manifests fs"
    using c by (elim disjE exE) (simp_all add: manifests_OAIAgent_save)
  have none: "\<And>q. \<not> (\<exists>d. th_load q (fst (save_agents P self path tag [])) = Some (TrainerFile d))"
    using save_agents_cases [of P self path tag "[]"]
    by (elim disjE exE) (simp_all add: th_load_def OAIAgent_save_def th_save_def Let_def)
  have l: "\<exists>e. load_agents P self path tag (fst (save_agents P self path tag [])) = Inl e"
  proof (cases "default_path self path")
    case (Inl e) then show ?thesis by (simp add: load_agents_def)
  next
    case p: (Inr path')
    show ?thesis
    proof (cases "default_tag self tag")
      case (Inl e) with p show ?thesis by (simp add: load_agents_def)
    next
      case t: (Inr tag')
      show ?thesis
      proof (cases "map_of (t_args self) ''device''")
        case None with p t show ?thesis by (simp add: load_agents_def Let_def)
      next
        case (Some device)
        let ?q = "path' @ ''/'' @ tag' @ ''/trainer_file''"
        show ?thesis
        proof (cases "th_load ?q (fst (save_agents P self path tag []))")
          case None
          with p t Some show ?thesis by (simp add: load_agents_def Let_def)
        next
          case f: (Some st)
          show ?thesis
          proof (cases st)
            case (AgentFile c)
            with f p t Some show ?thesis by (simp add: load_agents_def Let_def)
          next
            case (TrainerFile d)
            with f none [of ?q] show ?thesis by simp
          qed
        qed
      qed
    qed
  qed
  from e m l show ?thesis by blast
qed

text \<open>
  A trainer of one agent: the agent is saved as \<open>agent_0\<close>, then KeyError; loading finds
  no trainer file.
\<close>

lemma save_agents_one_agent:
  "save_agents demo_agent_lib demo_trainer None None [] =
     ([(''/data/agent_models/bc/forced_coordination/run1/agents_dir/agent_0'',
        AgentFile \<lparr>agent_type = Concrete ''DummyAgent'', state_dict = [3, 1, 4],
                   const_params = [(''name'', KStr ''dummy''),
                                   (''args'', KArgs [(''encoding_fn'', PStr ''OAI_feats''), (''device'', PStr ''cuda'')])],
                   saved_args = [(''encoding_fn'', PStr ''OAI_feats'')]\<rparr>)],
      Inl KeyError) \<and>
   raised (load_agents demo_agent_lib demo_trainer None None
     (fst (save_agents demo_agent_lib demo_trainer None None []))) = Some FileNotFoundError"
  by code_simp

subsection \<open>The checkpoint round trip (C1)\<close>



lemma construct_other_signature:
  assumes "set (init_params cls) \<noteq> {''name'', ''args''}"
  shows "construct P cls [(''name'', x), (''args'', y)] = Inl TypeError"
  using assms by (auto simp: construct_def)



section \<open>Properties of the hierarchical controller (C8)\<close>

lemma read_subtask_stdin:
  "length (fst (snd (read_subtask lib self stdin))) \<le> length stdin"
  by (simp add: read_subtask_def split: list.splits sum.splits)








end
